theory Spec2Isabelle
  imports Main "HOL-Library.Char_ord" "HOL-Library.List_Lexorder" "HOL-Library.Product_Lexorder"
begin

section \<open>Values, errors and dictionaries\<close>

text \<open>
  A dataset configuration is a nested Python value: scalars, sequences and mappings with
  string keys. Floating point scalars are left out. A Python \<open>dict\<close> keeps the
  insertion order of its keys, which the code observes (iteration over \<open>items()\<close>, the
  frozen view's last-write-wins), so a dictionary is an association list whose keys are
  distinct; \<open>dict_set\<close> is \<open>d[k] = v\<close>.
\<close>

datatype cfg =
    CNone
  | CBool bool
  | CInt int
  | CStr string
  | CList "cfg list"
  | CDict "(string \<times> cfg) list"

text \<open>
  Every exception the code raises or lets through is a value. \<open>DatasetNotFoundError\<close> and
  \<open>DatasetAlreadyExistsError\<close> are subclasses of \<open>DatasetError\<close> in \<open>kedro.io.core\<close>;
  \<open>RecursionError\<close> is Python's recursion limit.
\<close>

datatype error =
    KeyError string
  | ValueError string
  | TypeError string
  | AttributeError string
  | RecursionError
  | DatasetError string
  | DatasetNotFoundError string
  | DatasetAlreadyExistsError string

definition CREDENTIALS_KEY :: string where
  "CREDENTIALS_KEY = ''credentials''"

definition quoted :: "string \<Rightarrow> string" where
  "quoted s = CHR 0x27 # s @ [CHR 0x27]"

fun join :: "string \<Rightarrow> string list \<Rightarrow> string" where
  "join sep [] = []"
| "join sep [x] = x"
| "join sep (x # y # ys) = x @ sep @ join sep (y # ys)"

definition dict_has :: "('k \<times> 'v) list \<Rightarrow> 'k \<Rightarrow> bool" where
  "dict_has d k = (map_of d k \<noteq> None)"

definition dict_keys :: "('k \<times> 'v) list \<Rightarrow> 'k list" where
  "dict_keys d = map fst d"

fun dict_set :: "('k \<times> 'v) list \<Rightarrow> 'k \<Rightarrow> 'v \<Rightarrow> ('k \<times> 'v) list" where
  "dict_set [] k v = [(k, v)]"
| "dict_set ((k', v') # d) k v = (if k' = k then (k, v) # d else (k', v') # dict_set d k v)"

definition dict_update :: "('k \<times> 'v) list \<Rightarrow> ('k \<times> 'v) list \<Rightarrow> ('k \<times> 'v) list" where
  "dict_update d other = fold (\<lambda>kv acc. dict_set acc (fst kv) (snd kv)) other d"

definition dict_pop :: "('k \<times> 'v) list \<Rightarrow> 'k \<Rightarrow> ('k \<times> 'v) list" where
  "dict_pop d k = filter (\<lambda>kv. fst kv \<noteq> k) d"

section \<open>Credential resolution\<close>

text \<open>
  \<open>_get_credentials\<close>: the table entry, or the \<open>KeyError\<close> \<open>missing_credentials\<close>, whose
  message quotes the name.
\<close>

definition missing_credentials :: "string \<Rightarrow> error" where
  "missing_credentials credentials_name =
     KeyError (''Unable to find credentials '' @ quoted credentials_name @
       '': check your data catalog and credentials configuration. See '' @
       ''https://kedro.readthedocs.io/en/stable/kedro.io.DataCatalog.html '' @
       ''for an example.'')"

definition get_credentials :: "string \<Rightarrow> (string \<times> cfg) list \<Rightarrow> error + cfg" where
  "get_credentials credentials_name credentials =
     (case map_of credentials credentials_name of
        Some entry \<Rightarrow> Inr entry
      | None \<Rightarrow> Inl (missing_credentials credentials_name))"

text \<open>
  \<open>_resolve_credentials\<close>. The inner \<open>_map_value\<close> looks a string under the credentials
  key up, walks into a mapping with a dict comprehension (\<open>map_items\<close>, left to right, the
  first failing lookup raising), and returns everything else as it is. The deep copy of the
  argument is the identity on values.
\<close>

fun map_value :: "(string \<times> cfg) list \<Rightarrow> string \<Rightarrow> cfg \<Rightarrow> error + cfg"
and map_items :: "(string \<times> cfg) list \<Rightarrow> (string \<times> cfg) list \<Rightarrow> error + (string \<times> cfg) list"
where
  "map_value credentials key (CStr s) =
     (if key = CREDENTIALS_KEY then get_credentials s credentials else Inr (CStr s))"
| "map_value credentials key (CDict kvs) =
     (case map_items credentials kvs of Inl e \<Rightarrow> Inl e | Inr kvs' \<Rightarrow> Inr (CDict kvs'))"
| "map_value credentials key CNone = Inr CNone"
| "map_value credentials key (CBool b) = Inr (CBool b)"
| "map_value credentials key (CInt i) = Inr (CInt i)"
| "map_value credentials key (CList xs) = Inr (CList xs)"
| "map_items credentials [] = Inr []"
| "map_items credentials ((k, v) # rest) =
     (case map_value credentials k v of
        Inl e \<Rightarrow> Inl e
      | Inr v' \<Rightarrow>
          (case map_items credentials rest of
             Inl e \<Rightarrow> Inl e
           | Inr rest' \<Rightarrow> Inr ((k, v') # rest')))"

definition resolve_credentials ::
  "(string \<times> cfg) list \<Rightarrow> (string \<times> cfg) list \<Rightarrow> error + (string \<times> cfg) list" where
  "resolve_credentials config credentials = map_items credentials config"

section \<open>Names in the frozen view\<close>

text \<open>
  \<open>_sub_nonword_chars\<close> is \<open>re.sub(r"\W+", "__", name)\<close>: every maximal run of non-word
  characters becomes two underscores. Names are ASCII here, where \<open>\w\<close> is a letter, a
  digit or the underscore.
\<close>

definition is_word_char :: "char \<Rightarrow> bool" where
  "is_word_char c =
     (let n = (of_char c :: nat)
      in (48 \<le> n \<and> n \<le> 57) \<or> (65 \<le> n \<and> n \<le> 90) \<or> n = 95 \<or> (97 \<le> n \<and> n \<le> 122))"

function sub_nonword_chars :: "string \<Rightarrow> string" where
  "sub_nonword_chars [] = []"
| "sub_nonword_chars (c # cs) =
     (if is_word_char c then c # sub_nonword_chars cs
      else ''__'' @ sub_nonword_chars (dropWhile (\<lambda>x. \<not> is_word_char x) cs))"
  by pat_completeness auto
termination
  by (relation "measure length") (auto simp: less_Suc_eq_le length_dropWhile_le)

section \<open>Specificity and the order of patterns\<close>

text \<open>
  \<open>_specificity\<close> is the length of \<open>re.sub(r"\{.*?\}", "", pattern)\<close>. The regular
  expression matches from an opening brace to the nearest closing brace, with no newline
  in between (\<open>.\<close> does not match a newline); \<open>close_brace\<close> finds the text after that
  closing brace.
\<close>

fun close_brace :: "string \<Rightarrow> string option" where
  "close_brace [] = None"
| "close_brace (c # cs) =
     (if c = CHR ''}'' then Some cs else if c = CHR 0x0A then None else close_brace cs)"

lemma close_brace_shorter: "close_brace cs = Some r \<Longrightarrow> length r < length cs"
  by (induction cs) (auto split: if_splits)

function strip_placeholders :: "string \<Rightarrow> string" where
  "strip_placeholders [] = []"
| "strip_placeholders (c # cs) =
     (if c = CHR ''{'' then
        (case close_brace cs of
           Some r \<Rightarrow> strip_placeholders r
         | None \<Rightarrow> c # strip_placeholders cs)
      else c # strip_placeholders cs)"
  by pat_completeness auto
termination
  by (relation "measure length") (auto dest: close_brace_shorter)

definition specificity :: "string \<Rightarrow> nat" where
  "specificity pattern = length (strip_placeholders pattern)"

text \<open>
  The sort key of \<open>DataCatalog.__init__\<close>:
  \<open>(-_specificity(pattern), -pattern.count("{"), pattern)\<close>, compared as Python compares
  tuples, component by component, strings by their characters.
\<close>

definition placeholder_count :: "string \<Rightarrow> nat" where
  "placeholder_count pattern = count_list pattern CHR ''{''"

definition pattern_key :: "string \<Rightarrow> int \<times> int \<times> string" where
  "pattern_key pattern = (- int (specificity pattern), - int (placeholder_count pattern), pattern)"

definition sort_patterns :: "string list \<Rightarrow> string list" where
  "sort_patterns patterns = sort_key pattern_key patterns"

section \<open>Template strings\<close>

text \<open>
  \<open>str.format_map\<close>, as \<open>_resolve_dataset\<close> uses it. The string is read left to right:
  \<open>{{\<close> and \<open>}}\<close> are literal braces, a lone \<open>}\<close> is a \<open>ValueError\<close>, and a replacement
  field \<open>{name}\<close> whose name is plain is looked up in the captures (\<open>KeyError\<close> when it is
  absent). A name is plain when it is not empty, is not a number and has none of the
  characters that start a conversion, a format specification, an index or an attribute.
  From the first field that is not plain on, the result is Python's, taken as the
  parameter \<open>format_ext\<close>.
\<close>

fun simple_field :: "string \<Rightarrow> (string \<times> string) option" where
  "simple_field [] = None"
| "simple_field (c # cs) =
     (if c = CHR ''}'' then Some ([], cs)
      else if c \<in> {CHR ''{'', CHR '':'', CHR ''!'', CHR ''['', CHR ''.''} then None
      else (case simple_field cs of None \<Rightarrow> None | Some (name, r) \<Rightarrow> Some (c # name, r)))"

lemma simple_field_shorter: "simple_field cs = Some (name, r) \<Longrightarrow> length r < length cs"
  by (induction cs arbitrary: name) (auto split: if_splits option.splits)

definition is_digit :: "char \<Rightarrow> bool" where
  "is_digit c = (let n = (of_char c :: nat) in 48 \<le> n \<and> n \<le> 57)"

definition plain_name :: "string \<Rightarrow> bool" where
  "plain_name name = (name \<noteq> [] \<and> \<not> list_all is_digit name)"

definition prepend :: "string \<Rightarrow> error + string \<Rightarrow> error + string" where
  "prepend s r = (case r of Inl e \<Rightarrow> Inl e | Inr t \<Rightarrow> Inr (s @ t))"

function format_map ::
  "(string \<Rightarrow> (string \<times> string) list \<Rightarrow> error + string) \<Rightarrow> string \<Rightarrow>
   (string \<times> string) list \<Rightarrow> error + string" where
  "format_map format_ext [] named = Inr []"
| "format_map format_ext (c # cs) named =
     (if c = CHR ''{'' then
        (if cs \<noteq> [] \<and> hd cs = CHR ''{'' then prepend ''{'' (format_map format_ext (tl cs) named)
         else
           (case simple_field cs of
              None \<Rightarrow> format_ext (c # cs) named
            | Some (name, r) \<Rightarrow>
                if \<not> plain_name name then format_ext (c # cs) named
                else
                  (case map_of named name of
                     None \<Rightarrow> Inl (KeyError name)
                   | Some capture \<Rightarrow> prepend capture (format_map format_ext r named))))
      else if c = CHR ''}'' then
        (if cs \<noteq> [] \<and> hd cs = CHR ''}'' then prepend ''}'' (format_map format_ext (tl cs) named)
         else Inl (ValueError (''Single '' @ quoted ''}'' @ '' encountered in format string'')))
      else prepend [c] (format_map format_ext cs named))"
  by pat_completeness auto
termination
  by (relation "measure (\<lambda>(f, s, n). length s)") (auto dest: simple_field_shorter)

section \<open>The collaborators of the catalog\<close>

text \<open>
  What the catalog calls and this file does not define is a parameter: the \<open>parse\<close>
  package (\<open>None\<close> when the name does not match, otherwise the named captures, which are
  strings for placeholders without a type), \<open>AbstractDataSet.from_config\<close> of
  \<open>kedro.io.core\<close> with its arguments (name, config, load version, save version), the
  test \<open>isinstance(d, AbstractVersionedDataSet)\<close>, \<open>_copy(_version=v)\<close>, \<open>MemoryDataset\<close>,
  \<open>generate_timestamp\<close>, \<open>difflib.get_close_matches\<close>, Python's \<open>str\<close> on a list or a
  dict, the rest of the format mini-language, and the capability's own operations
  (\<open>ds_confirm\<close> is \<open>None\<close> when the dataset has no \<open>confirm\<close> attribute). A dataset is a
  value of type \<open>'ds\<close>; its effects on storage are outside the catalog.
\<close>

type_synonym version = "string option \<times> string option"

record ('ds, 'd) env =
  parse :: "string \<Rightarrow> string \<Rightarrow> (string \<times> string) list option"
  AbstractDataSet_from_config ::
    "string \<Rightarrow> (string \<times> cfg) list \<Rightarrow> string option \<Rightarrow> string option \<Rightarrow> error + 'ds"
  is_versioned :: "'ds \<Rightarrow> bool"
  ds_copy :: "'ds \<Rightarrow> version \<Rightarrow> 'ds"
  MemoryDataset :: "'d \<Rightarrow> 'ds"
  generate_timestamp :: string
  get_close_matches :: "string \<Rightarrow> string list \<Rightarrow> string list"
  py_str :: "cfg \<Rightarrow> string"
  format_ext :: "string \<Rightarrow> (string \<times> string) list \<Rightarrow> error + string"
  ds_load :: "'ds \<Rightarrow> error + 'd"
  ds_save :: "'ds \<Rightarrow> 'd \<Rightarrow> error + unit"
  ds_exists :: "'ds \<Rightarrow> error + bool"
  ds_release :: "'ds \<Rightarrow> error + unit"
  ds_confirm :: "'ds \<Rightarrow> (error + unit) option"

section \<open>The frozen view\<close>

text \<open>
  A \<open>_FrozenDatasets\<close> object is its \<open>__dict__\<close>. The constructor merges its
  collections from left to right with \<open>__dict__.update\<close>: another view as it is, a
  dictionary through the comprehension that rewrites its names.
\<close>

datatype 'ds collection = Frozen "(string \<times> 'ds) list" | Mapping "(string \<times> 'ds) list"

fun collection_items :: "'ds collection \<Rightarrow> (string \<times> 'ds) list" where
  "collection_items (Frozen view) = view"
| "collection_items (Mapping d) =
     dict_update [] (map (\<lambda>kv. (sub_nonword_chars (fst kv), snd kv)) d)"

definition FrozenDatasets_init :: "'ds collection list \<Rightarrow> (string \<times> 'ds) list" where
  "FrozenDatasets_init datasets_collections =
     fold (\<lambda>collection view. dict_update view (collection_items collection)) datasets_collections []"

text \<open>
  \<open>__setattr__\<close> always raises; the message depends on whether the key is in \<open>__dict__\<close>.
  The result carries the view after the call.
\<close>

definition FrozenDatasets_setattr ::
  "(string \<times> 'ds) list \<Rightarrow> string \<Rightarrow> 'v \<Rightarrow> (error + unit) \<times> (string \<times> 'ds) list" where
  "FrozenDatasets_setattr view key v =
     (let msg = ''Operation not allowed! '';
          msg = (if dict_has view key then msg @ ''Please change datasets through configuration.''
                 else msg @ ''Please use DataCatalog.add() instead.'')
      in (Inl (AttributeError msg), view))"

text \<open>
  The class defines no \<open>__delattr__\<close>, so \<open>del view.key\<close> is Python's
  \<open>object.__delattr__\<close>: an entry of \<open>__dict__\<close> is removed, and a key that is not there
  is an \<open>AttributeError\<close> of Python's own.
\<close>

definition FrozenDatasets_delattr ::
  "(string \<times> 'ds) list \<Rightarrow> string \<Rightarrow> (error + unit) \<times> (string \<times> 'ds) list" where
  "FrozenDatasets_delattr view key =
     (if dict_has view key then (Inr (), dict_pop view key)
      else (Inl (AttributeError (quoted ''_FrozenDatasets'' @ '' object has no attribute '' @ quoted key)), view))"

section \<open>The catalog\<close>

text \<open>
  The dictionaries a catalog refers to are objects in a store, so that two catalogs can
  be asked whether they share one: \<open>ds_dicts\<close> holds the dictionaries from names to
  datasets, \<open>pat_dicts\<close> those from patterns to template configs, \<open>layer_dicts\<close> the
  layer tables; \<open>next_ref\<close> is the next free address. A \<open>DataCatalog\<close> object is the
  record of its attributes: \<open>data_sets\<close> (\<open>_data_sets\<close>), \<open>layers\<close> and
  \<open>dataset_patterns\<close> are references, \<open>datasets\<close> is the frozen view, and the sorted
  patterns and the cache of matches are the catalog's own list and dictionary. A method
  takes the store and the catalog and returns them, also when it raises.
\<close>

record 'ds store =
  ds_dicts :: "nat \<Rightarrow> (string \<times> 'ds) list"
  pat_dicts :: "nat \<Rightarrow> (string \<times> (string \<times> cfg) list) list"
  layer_dicts :: "nat \<Rightarrow> (cfg \<times> string list) list"
  next_ref :: nat

record 'ds catalog =
  data_sets :: nat
  datasets :: "(string \<times> 'ds) list"
  layers :: "nat option"
  dataset_patterns :: nat
  sorted_dataset_patterns :: "string list"
  pattern_matches_cache :: "(string \<times> string) list"

type_synonym 'ds state = "'ds store \<times> 'ds catalog"

definition new_ds_dict :: "(string \<times> 'ds) list \<Rightarrow> 'ds store \<Rightarrow> nat \<times> 'ds store" where
  "new_ds_dict d h =
     (next_ref h, h\<lparr>ds_dicts := (ds_dicts h)(next_ref h := d), next_ref := Suc (next_ref h)\<rparr>)"

definition new_pat_dict ::
  "(string \<times> (string \<times> cfg) list) list \<Rightarrow> 'ds store \<Rightarrow> nat \<times> 'ds store" where
  "new_pat_dict d h =
     (next_ref h, h\<lparr>pat_dicts := (pat_dicts h)(next_ref h := d), next_ref := Suc (next_ref h)\<rparr>)"

definition new_layer_dict :: "(cfg \<times> string list) list \<Rightarrow> 'ds store \<Rightarrow> nat \<times> 'ds store" where
  "new_layer_dict d h =
     (next_ref h, h\<lparr>layer_dicts := (layer_dicts h)(next_ref h := d), next_ref := Suc (next_ref h)\<rparr>)"

definition the_data_sets :: "'ds state \<Rightarrow> (string \<times> 'ds) list" where
  "the_data_sets s = ds_dicts (fst s) (data_sets (snd s))"

definition the_patterns :: "'ds state \<Rightarrow> (string \<times> (string \<times> cfg) list) list" where
  "the_patterns s = pat_dicts (fst s) (dataset_patterns (snd s))"

text \<open>
  \<open>DataCatalog.add\<close>: the name is written into the dictionary \<open>_data_sets\<close> refers to,
  and \<open>datasets\<close> becomes a new view made of the old one and the new entry. The warning
  that is logged on a replacement is not modelled.
\<close>

definition add :: "'ds state \<Rightarrow> string \<Rightarrow> 'ds \<Rightarrow> bool \<Rightarrow> (error + unit) \<times> 'ds state" where
  "add s data_set_name data_set replace =
     (let h = fst s; c = snd s in
      if dict_has (the_data_sets s) data_set_name \<and> \<not> replace then
        (Inl (DatasetAlreadyExistsError
                (''Dataset '' @ quoted data_set_name @ '' has already been registered'')), s)
      else
        (Inr (),
         (h\<lparr>ds_dicts := (ds_dicts h)(data_sets c := dict_set (the_data_sets s) data_set_name data_set)\<rparr>,
          c\<lparr>datasets := FrozenDatasets_init [Frozen (datasets c), Mapping [(data_set_name, data_set)]]\<rparr>)))"


text \<open>
  In a feed dict a value is either a dataset (\<open>Inl\<close>) or data to wrap in a
  \<open>MemoryDataset\<close> (\<open>Inr\<close>).
\<close>

fun add_feed_dict ::
  "('ds, 'd) env \<Rightarrow> 'ds state \<Rightarrow> (string \<times> ('ds + 'd)) list \<Rightarrow> bool \<Rightarrow> (error + unit) \<times> 'ds state" where
  "add_feed_dict env s [] replace = (Inr (), s)"
| "add_feed_dict env s ((data_set_name, v) # rest) replace =
     (let data_set = (case v of Inl ds \<Rightarrow> ds | Inr data \<Rightarrow> MemoryDataset env data) in
      case add s data_set_name data_set replace of
        (Inl e, s') \<Rightarrow> (Inl e, s')
      | (Inr u, s') \<Rightarrow> add_feed_dict env s' rest replace)"

text \<open>
  \<open>DataCatalog.__init__\<close>. \<open>dict(data_sets or {})\<close> and \<open>dict(dataset_patterns or {})\<close>
  make new dictionaries with the entries of the arguments, so the constructor takes the
  entries and allocates; \<open>layers\<close> is kept as the reference it is given. The patterns are
  sorted once, here.
\<close>

definition DataCatalog_init ::
  "('ds, 'd) env \<Rightarrow> (string \<times> 'ds) list option \<Rightarrow> (string \<times> ('ds + 'd)) list option \<Rightarrow>
   nat option \<Rightarrow> (string \<times> (string \<times> cfg) list) list option \<Rightarrow> 'ds store \<Rightarrow>
   (error + 'ds catalog) \<times> 'ds store" where
  "DataCatalog_init env data_sets_arg feed_dict layers_arg dataset_patterns_arg h =
     (let (ds_ref, h1) = new_ds_dict (case data_sets_arg of None \<Rightarrow> [] | Some d \<Rightarrow> d) h;
          view = FrozenDatasets_init [Mapping (ds_dicts h1 ds_ref)];
          (pat_ref, h2) =
            new_pat_dict (case dataset_patterns_arg of None \<Rightarrow> [] | Some d \<Rightarrow> d) h1;
          c = \<lparr>data_sets = ds_ref, datasets = view, layers = layers_arg,
               dataset_patterns = pat_ref,
               sorted_dataset_patterns = sort_key pattern_key (dict_keys (pat_dicts h2 pat_ref)),
               pattern_matches_cache = []\<rparr>
      in case feed_dict of
           None \<Rightarrow> (Inr c, h2)
         | Some fd \<Rightarrow>
             if fd = [] then (Inr c, h2)
             else
               (case add_feed_dict env (h2, c) fd False of
                  (Inl e, s') \<Rightarrow> (Inl e, fst s')
                | (Inr u, s') \<Rightarrow> (Inr (snd s'), fst s')))"

text \<open>\<open>shallow_copy\<close> builds a catalog from the attributes of this one.\<close>

definition shallow_copy :: "('ds, 'd) env \<Rightarrow> 'ds state \<Rightarrow> (error + 'ds catalog) \<times> 'ds store" where
  "shallow_copy env s =
     DataCatalog_init env (Some (the_data_sets s)) None (layers (snd s))
       (Some (the_patterns s)) (fst s)"

section \<open>Matching and resolving a name\<close>

text \<open>
  \<open>match_name_against_patterns\<close>: the first of the sorted patterns that \<open>parse\<close>
  matches against the name.
\<close>

fun first_match :: "(string \<Rightarrow> string \<Rightarrow> (string \<times> string) list option) \<Rightarrow> string list \<Rightarrow> string \<Rightarrow> string option" where
  "first_match prs [] dataset_name = None"
| "first_match prs (pattern # rest) dataset_name =
     (if prs pattern dataset_name \<noteq> None then Some pattern else first_match prs rest dataset_name)"

definition match_name_against_patterns ::
  "('ds, 'd) env \<Rightarrow> 'ds state \<Rightarrow> string \<Rightarrow> string option" where
  "match_name_against_patterns env s dataset_name =
     first_match (parse env) (sorted_dataset_patterns (snd s)) dataset_name"

text \<open>
  \<open>exists_in_catalog_config\<close>: a registered or cached name is found at once; otherwise
  the patterns are tried, and a match (a pattern that is not the empty string, which
  Python takes for false) is written into the cache.
\<close>

definition exists_in_catalog_config ::
  "('ds, 'd) env \<Rightarrow> 'ds state \<Rightarrow> string \<Rightarrow> bool \<times> 'ds state" where
  "exists_in_catalog_config env s dataset_name =
     (if dict_has (the_data_sets s) dataset_name
         \<or> dict_has (pattern_matches_cache (snd s)) dataset_name then (True, s)
      else
        (case match_name_against_patterns env s dataset_name of
           None \<Rightarrow> (False, s)
         | Some matched_pattern \<Rightarrow>
             if matched_pattern = [] then (False, s)
             else
               (True,
                (fst s,
                 (snd s)\<lparr>pattern_matches_cache :=
                   dict_set (pattern_matches_cache (snd s)) dataset_name matched_pattern\<rparr>))))"

text \<open>
  \<open>_resolve_dataset\<close>. The loop runs over the items of the copied template, the top
  level of the config only. A value is formatted when it is iterable and \<open>"}" in value\<close>
  holds: a string with a closing brace, a list with the element \<open>"}"\<close>, a dictionary with
  the key \<open>"}"\<close>. \<open>result.named\<close> is read only then, and fails on a name that \<open>parse\<close>
  did not match. A \<open>KeyError\<close> of \<open>format_map\<close> becomes the \<open>DatasetError\<close>
  \<open>unable_to_resolve\<close>, which quotes the key and the pattern; any other error goes through.
\<close>

fun needs_format :: "cfg \<Rightarrow> bool" where
  "needs_format (CStr s) = (CHR ''}'' \<in> set s)"
| "needs_format (CList xs) = (CStr ''}'' \<in> set xs)"
| "needs_format (CDict kvs) = dict_has kvs ''}''"
| "needs_format CNone = False"
| "needs_format (CBool b) = False"
| "needs_format (CInt i) = False"

definition string_value :: "('ds, 'd) env \<Rightarrow> cfg \<Rightarrow> string" where
  "string_value env v = (case v of CStr s \<Rightarrow> s | _ \<Rightarrow> py_str env v)"

definition unable_to_resolve :: "string \<Rightarrow> string \<Rightarrow> error" where
  "unable_to_resolve key matched_pattern =
     DatasetError (''Unable to resolve '' @ quoted key @ '' for the pattern '' @ quoted matched_pattern)"

fun resolve_fields ::
  "('ds, 'd) env \<Rightarrow> string \<Rightarrow> (string \<times> string) list option \<Rightarrow> (string \<times> cfg) list \<Rightarrow>
   error + (string \<times> cfg) list" where
  "resolve_fields env matched_pattern result [] = Inr []"
| "resolve_fields env matched_pattern result ((key, v) # rest) =
     (if needs_format v then
        (case result of
           None \<Rightarrow> Inl (AttributeError
             (quoted ''NoneType'' @ '' object has no attribute '' @ quoted ''named''))
         | Some named \<Rightarrow>
             (case format_map (format_ext env) (string_value env v) named of
                Inl (KeyError k) \<Rightarrow> Inl (unable_to_resolve key matched_pattern)
              | Inl e \<Rightarrow> Inl e
              | Inr formatted \<Rightarrow>
                  (case resolve_fields env matched_pattern result rest of
                     Inl e \<Rightarrow> Inl e
                   | Inr rest' \<Rightarrow> Inr ((key, CStr formatted) # rest'))))
      else
        (case resolve_fields env matched_pattern result rest of
           Inl e \<Rightarrow> Inl e
         | Inr rest' \<Rightarrow> Inr ((key, v) # rest')))"

definition resolve_config ::
  "('ds, 'd) env \<Rightarrow> 'ds state \<Rightarrow> string \<Rightarrow> string \<Rightarrow> error + (string \<times> cfg) list" where
  "resolve_config env s dataset_name matched_pattern =
     (let result = parse env matched_pattern dataset_name in
      case map_of (the_patterns s) matched_pattern of
        None \<Rightarrow> Inl (KeyError matched_pattern)
      | Some template \<Rightarrow> resolve_fields env matched_pattern result template)"

definition resolve_dataset ::
  "('ds, 'd) env \<Rightarrow> 'ds state \<Rightarrow> string \<Rightarrow> string \<Rightarrow> error + 'ds" where
  "resolve_dataset env s dataset_name matched_pattern =
     (case resolve_config env s dataset_name matched_pattern of
        Inl e \<Rightarrow> Inl e
      | Inr template_copy \<Rightarrow> AbstractDataSet_from_config env dataset_name template_copy None None)"

text \<open>
  \<open>_get_dataset\<close>. A name that is not registered is looked for among the patterns; a
  match is resolved to a dataset and added under the name. The suggestions in the message
  of the error come from \<open>difflib\<close>. \<open>lookup_dataset\<close> is the end of the method: the
  entry of the name is read and, with a version, a versioned dataset is returned as a copy.
\<close>

definition not_found_message :: "('ds, 'd) env \<Rightarrow> 'ds state \<Rightarrow> string \<Rightarrow> bool \<Rightarrow> string" where
  "not_found_message env s data_set_name suggest =
     (let error_msg = ''DataSet '' @ quoted data_set_name @ '' not found in the catalog'';
          matches = (if suggest then get_close_matches env data_set_name (dict_keys (the_data_sets s))
                     else [])
      in if matches \<noteq> [] then
           error_msg @ '' - did you mean one of these instead: '' @ join '', '' matches
         else error_msg)"

definition lookup_dataset ::
  "('ds, 'd) env \<Rightarrow> 'ds state \<Rightarrow> string \<Rightarrow> version option \<Rightarrow> (error + 'ds) \<times> 'ds state" where
  "lookup_dataset env s data_set_name version =
     (case map_of (the_data_sets s) data_set_name of
        None \<Rightarrow> (Inl (KeyError data_set_name), s)
      | Some data_set \<Rightarrow>
          (case version of
             None \<Rightarrow> (Inr data_set, s)
           | Some v \<Rightarrow>
               if is_versioned env data_set then (Inr (ds_copy env data_set v), s)
               else (Inr data_set, s)))"

definition get_dataset ::
  "('ds, 'd) env \<Rightarrow> 'ds state \<Rightarrow> string \<Rightarrow> version option \<Rightarrow> bool \<Rightarrow> (error + 'ds) \<times> 'ds state" where
  "get_dataset env s data_set_name version suggest =
     (if \<not> dict_has (the_data_sets s) data_set_name then
        (case exists_in_catalog_config env s data_set_name of
           (True, s1) \<Rightarrow>
             (case map_of (pattern_matches_cache (snd s1)) data_set_name of
                None \<Rightarrow> (Inl (KeyError data_set_name), s1)
              | Some pattern \<Rightarrow>
                  (case resolve_dataset env s1 data_set_name pattern of
                     Inl e \<Rightarrow> (Inl e, s1)
                   | Inr matched_dataset \<Rightarrow>
                       (case add s1 data_set_name matched_dataset False of
                          (Inl e, s2) \<Rightarrow> (Inl e, s2)
                        | (Inr u, s2) \<Rightarrow> lookup_dataset env s2 data_set_name version)))
         | (False, s1) \<Rightarrow>
             (Inl (DatasetNotFoundError (not_found_message env s1 data_set_name suggest)), s1))
      else lookup_dataset env s data_set_name version)"

section \<open>The operations of the catalog\<close>



definition exists :: "('ds, 'd) env \<Rightarrow> 'ds state \<Rightarrow> string \<Rightarrow> (error + bool) \<times> 'ds state" where
  "exists env s name =
     (case get_dataset env s name None True of
        (Inl (DatasetNotFoundError msg), s') \<Rightarrow> (Inr False, s')
      | (Inl e, s') \<Rightarrow> (Inl e, s')
      | (Inr dataset, s') \<Rightarrow> (ds_exists env dataset, s'))"



section \<open>Construction from configuration\<close>

text \<open>
  The layer of a dataset is a key of the \<open>layers\<close> dictionary, so it must be hashable;
  as keys, \<open>True\<close> and \<open>1\<close> are the same.
\<close>

fun hashable :: "cfg \<Rightarrow> bool" where
  "hashable (CList xs) = False"
| "hashable (CDict kvs) = False"
| "hashable v = True"

fun key_eq :: "cfg \<Rightarrow> cfg \<Rightarrow> bool" where
  "key_eq (CBool b) (CInt i) = (i = (if b then 1 else 0))"
| "key_eq (CInt i) (CBool b) = (i = (if b then 1 else 0))"
| "key_eq a b = (a = b)"

fun layer_add :: "(cfg \<times> string list) list \<Rightarrow> cfg \<Rightarrow> string \<Rightarrow> (cfg \<times> string list) list" where
  "layer_add [] ds_layer ds_name = [(ds_layer, [ds_name])]"
| "layer_add ((k, names) # rest) ds_layer ds_name =
     (if key_eq k ds_layer then (k, if ds_name \<in> set names then names else names @ [ds_name]) # rest
      else (k, names) # layer_add rest ds_layer ds_name)"

text \<open>
  The loop of \<open>from_config\<close> over the entries of the catalog, with the three dictionaries
  it fills (\<open>data_sets\<close>, \<open>dataset_patterns\<close> and \<open>layers\<close> in the source): a name with a closing brace is a pattern and keeps its config; any other name
  loses its \<open>layer\<close> entry to the layers, has its credentials resolved and its dataset
  made, with its load version and the save version. The first error ends the loop.
\<close>

fun from_config_loop ::
  "('ds, 'd) env \<Rightarrow> (string \<times> cfg) list \<Rightarrow> (string \<times> string) list \<Rightarrow> string \<Rightarrow>
   (string \<times> (string \<times> cfg) list) list \<Rightarrow>
   (string \<times> 'ds) list \<times> (string \<times> (string \<times> cfg) list) list \<times> (cfg \<times> string list) list \<Rightarrow>
   error + (string \<times> 'ds) list \<times> (string \<times> (string \<times> cfg) list) list \<times> (cfg \<times> string list) list" where
  "from_config_loop env credentials load_versions save_version [] acc = Inr acc"
| "from_config_loop env credentials load_versions save_version ((ds_name, ds_config) # rest)
       (data_sets_d, dataset_patterns_d, layers_d) =
     (if CHR ''}'' \<in> set ds_name then
        from_config_loop env credentials load_versions save_version rest
          (data_sets_d, dict_set dataset_patterns_d ds_name ds_config, layers_d)
      else
        (let ds_layer = (case map_of ds_config ''layer'' of None \<Rightarrow> CNone | Some l \<Rightarrow> l);
             ds_config = dict_pop ds_config ''layer''
         in if ds_layer \<noteq> CNone \<and> \<not> hashable ds_layer then
              Inl (TypeError ''unhashable type'')
            else
              (let layers_d = (if ds_layer \<noteq> CNone then layer_add layers_d ds_layer ds_name else layers_d)
               in case resolve_credentials ds_config credentials of
                    Inl e \<Rightarrow> Inl e
                  | Inr ds_config \<Rightarrow>
                      (case AbstractDataSet_from_config env ds_name ds_config
                              (map_of load_versions ds_name) (Some save_version) of
                         Inl e \<Rightarrow> Inl e
                       | Inr data_set \<Rightarrow>
                           from_config_loop env credentials load_versions save_version rest
                             (dict_set data_sets_d ds_name data_set, dataset_patterns_d, layers_d)))))"

text \<open>
  \<open>save_version or generate_timestamp()\<close>: the argument, or the timestamp when the
  argument is \<open>None\<close> or empty.
\<close>

definition shared_save_version :: "('ds, 'd) env \<Rightarrow> string option \<Rightarrow> string" where
  "shared_save_version env save_version =
     (case save_version of
        None \<Rightarrow> generate_timestamp env
      | Some v \<Rightarrow> if v = [] then generate_timestamp env else v)"

text \<open>
  \<open>DataCatalog.from_config\<close>. An argument that is \<open>None\<close> or empty counts as empty; the
  save version defaults to the timestamp. The names of \<open>load_versions\<close> that the catalog
  does not have are reported before the loop starts, sorted, in
  \<open>load_versions_message\<close>. The dictionaries the loop fills are
  values until the constructor copies them; the layers, which the new catalog refers to,
  are allocated when there are any.
\<close>

definition load_versions_message :: "string list \<Rightarrow> string" where
  "load_versions_message missing_keys =
     quoted ''load_versions'' @ '' keys ['' @ join '', '' (sort (remdups missing_keys)) @
     ''] are not found in the catalog.''"

definition from_config ::
  "('ds, 'd) env \<Rightarrow> (string \<times> (string \<times> cfg) list) list option \<Rightarrow> (string \<times> cfg) list option \<Rightarrow>
   (string \<times> string) list option \<Rightarrow> string option \<Rightarrow> 'ds store \<Rightarrow>
   (error + 'ds catalog) \<times> 'ds store" where
  "from_config env catalog credentials load_versions save_version h =
     (let catalog = (case catalog of None \<Rightarrow> [] | Some c \<Rightarrow> c);
          credentials = (case credentials of None \<Rightarrow> [] | Some c \<Rightarrow> c);
          save_version = shared_save_version env save_version;
          load_versions = (case load_versions of None \<Rightarrow> [] | Some l \<Rightarrow> l);
          missing_keys = filter (\<lambda>k. \<not> dict_has catalog k) (dict_keys load_versions)
      in if missing_keys \<noteq> [] then
           (Inl (DatasetNotFoundError (load_versions_message missing_keys)), h)
         else
           (case from_config_loop env credentials load_versions save_version catalog ([], [], []) of
              Inl e \<Rightarrow> (Inl e, h)
            | Inr (data_sets_d, dataset_patterns_d, layers_d) \<Rightarrow>
                (let (dataset_layers, h1) =
                       (if layers_d = [] then (None, h)
                        else (case new_layer_dict layers_d h of (r, h') \<Rightarrow> (Some r, h')))
                 in DataCatalog_init env (Some data_sets_d) None dataset_layers
                      (Some dataset_patterns_d) h1)))"

text \<open>The state a constructor leaves when it returns a catalog.\<close>

definition constructed :: "(error + 'ds catalog) \<times> 'ds store \<Rightarrow> 'ds state option" where
  "constructed r = (case r of (Inr c, h') \<Rightarrow> Some (h', c) | (Inl e, h') \<Rightarrow> None)"

section \<open>Sequences of calls\<close>




text \<open>The references of a catalog are allocated addresses.\<close>

definition allocated :: "'ds state \<Rightarrow> bool" where
  "allocated s = (data_sets (snd s) < next_ref (fst s) \<and> dataset_patterns (snd s) < next_ref (fst s))"


section \<open>The order of patterns, in the code and in words\<close>



section \<open>Example values\<close>

text \<open>
  A small environment for concrete runs: a dataset is the config it was made from,
  \<open>parse\<close> knows the patterns \<open>{name}\<close> and \<open>{a}.{b}\<close> only, nothing is versioned.
\<close>

definition example_parse :: "string \<Rightarrow> string \<Rightarrow> (string \<times> string) list option" where
  "example_parse pattern name =
     (if pattern = ''{name}'' \<and> name \<noteq> [] \<and> CHR ''.'' \<notin> set name then Some [(''name'', name)]
      else if pattern = ''{a}.{b}'' \<and> name = ''x.y'' then Some [(''a'', ''x''), (''b'', ''y'')]
      else None)"

definition example_env :: "((string \<times> cfg) list, cfg) env" where
  "example_env =
     \<lparr>parse = example_parse,
      AbstractDataSet_from_config = (\<lambda>name config load_version save_version. Inr config),
      is_versioned = (\<lambda>d. False),
      ds_copy = (\<lambda>d v. d),
      MemoryDataset = (\<lambda>data. [(''data'', data)]),
      generate_timestamp = ''2023-01-01T00.00.00.000Z'',
      get_close_matches = (\<lambda>name names. []),
      py_str = (\<lambda>v. []),
      format_ext = (\<lambda>s named. Inl (ValueError s)),
      ds_load = (\<lambda>d. Inr CNone),
      ds_save = (\<lambda>d data. Inr ()),
      ds_exists = (\<lambda>d. Inr True),
      ds_release = (\<lambda>d. Inr ()),
      ds_confirm = (\<lambda>d. None)\<rparr>"

definition empty_store :: "(string \<times> cfg) list store" where
  "empty_store = \<lparr>ds_dicts = (\<lambda>a. []), pat_dicts = (\<lambda>a. []), layer_dicts = (\<lambda>a. []), next_ref = 0\<rparr>"

text \<open>
  A catalog config with two patterns and no dataset, and the state its construction
  leaves: the template of \<open>{name}\<close> has a placeholder at its top level and one inside a
  nested mapping, the template of \<open>{a}.{b}\<close> refers to a capture \<open>c\<close> that the pattern
  does not have.
\<close>

definition example_catalog :: "(string \<times> (string \<times> cfg) list) list" where
  "example_catalog =
     [(''{name}'',
         [(''type'', CStr ''CSV''), (''filepath'', CStr ''data/{name}.csv''),
          (''load_args'', CDict [(''sep'', CStr ''{name}'')])]),
      (''{a}.{b}'',
         [(''type'', CStr ''CSV''), (''filepath'', CStr ''data/{c}.csv'')])]"

definition example_state :: "(string \<times> cfg) list state" where
  "example_state =
     (empty_store\<lparr>ds_dicts := (ds_dicts empty_store)(0 := []),
                  pat_dicts := (pat_dicts empty_store)(Suc 0 := example_catalog),
                  next_ref := Suc (Suc 0)\<rparr>,
      \<lparr>data_sets = 0, datasets = [], layers = None, dataset_patterns = Suc 0,
       sorted_dataset_patterns = [''{a}.{b}'', ''{name}''], pattern_matches_cache = []\<rparr>)"

section \<open>Places in a config\<close>

text \<open>
  A place in a config is the list of keys that leads to it through nested mappings;
  \<open>get_path\<close> reads the value there. \<open>last_key\<close> is the key a place sits under.
  \<open>unique_keys\<close> says that no mapping on the way has a key twice, as in any Python
  dictionary.
\<close>

fun get_path :: "cfg \<Rightarrow> string list \<Rightarrow> cfg option" where
  "get_path v [] = Some v"
| "get_path (CDict kvs) (k # ks) = (case map_of kvs k of None \<Rightarrow> None | Some v \<Rightarrow> get_path v ks)"
| "get_path CNone (k # ks) = None"
| "get_path (CBool b) (k # ks) = None"
| "get_path (CInt i) (k # ks) = None"
| "get_path (CStr s) (k # ks) = None"
| "get_path (CList xs) (k # ks) = None"

definition last_key :: "string \<Rightarrow> string list \<Rightarrow> string" where
  "last_key key p = (if p = [] then key else last p)"

fun unique_keys :: "cfg \<Rightarrow> bool"
and unique_keys_items :: "(string \<times> cfg) list \<Rightarrow> bool" where
  "unique_keys (CDict kvs) = unique_keys_items kvs"
| "unique_keys CNone = True"
| "unique_keys (CBool b) = True"
| "unique_keys (CInt i) = True"
| "unique_keys (CStr s) = True"
| "unique_keys (CList xs) = True"
| "unique_keys_items [] = True"
| "unique_keys_items ((k, v) # rest) =
     (\<not> dict_has rest k \<and> unique_keys v \<and> unique_keys_items rest)"

text \<open>
  What credential resolution leaves at a place that held \<open>u\<close> under the key \<open>key\<close>: the
  table's entry for a string under the credentials key, a mapping with the same keys for a
  mapping, and \<open>u\<close> itself for anything else.
\<close>

definition resolved_at :: "(string \<times> cfg) list \<Rightarrow> string \<Rightarrow> cfg \<Rightarrow> cfg option \<Rightarrow> bool" where
  "resolved_at credentials key u r =
     (case u of
        CStr s \<Rightarrow>
          if key = CREDENTIALS_KEY then r = map_of credentials s \<and> r \<noteq> None else r = Some u
      | CDict kvs \<Rightarrow> (\<exists>kvs'. r = Some (CDict kvs') \<and> map fst kvs' = map fst kvs)
      | CNone \<Rightarrow> r = Some u
      | CBool b \<Rightarrow> r = Some u
      | CInt i \<Rightarrow> r = Some u
      | CList xs \<Rightarrow> r = Some u)"

text \<open>An unresolved reference: a string under the credentials key that the table lacks.\<close>

definition unresolved_reference ::
  "(string \<times> cfg) list \<Rightarrow> (string \<times> cfg) list \<Rightarrow> string list \<Rightarrow> string \<Rightarrow> bool" where
  "unresolved_reference config credentials p s =
     (get_path (CDict config) p = Some (CStr s) \<and> last_key [] p = CREDENTIALS_KEY
      \<and> map_of credentials s = None)"

section \<open>Names with placeholders\<close>

text \<open>
  A name has a placeholder delimiter pair when an opening brace is followed, somewhere,
  by a closing brace. The code of \<open>from_config\<close> looks for the closing brace alone.
\<close>

definition has_placeholder_pair :: "string \<Rightarrow> bool" where
  "has_placeholder_pair name = (CHR ''}'' \<in> set (dropWhile (\<lambda>c. c \<noteq> CHR ''{'') name))"

text \<open>
  What construction does with one entry of the config: a name with a closing brace is
  not registered and is a pattern with the entry's config as it is; any other name is not
  a pattern and is registered with the dataset made from the config, without its
  \<open>layer\<close> and with credentials resolved, the load version of the name if there is one,
  and the save version.
\<close>

definition entry_done ::
  "('ds, 'd) env \<Rightarrow> (string \<times> cfg) list \<Rightarrow> (string \<times> string) list \<Rightarrow> string \<Rightarrow>
   (string \<times> 'ds) list \<Rightarrow> (string \<times> (string \<times> cfg) list) list \<Rightarrow>
   string \<Rightarrow> (string \<times> cfg) list \<Rightarrow> bool" where
  "entry_done env credentials load_versions save_version registered patterns ds_name ds_config =
     (if CHR ''}'' \<in> set ds_name then
        \<not> dict_has registered ds_name \<and> map_of patterns ds_name = Some ds_config
      else
        (\<exists>resolved data_set.
           resolve_credentials (dict_pop ds_config ''layer'') credentials = Inr resolved
           \<and> AbstractDataSet_from_config env ds_name resolved
                (map_of load_versions ds_name) (Some save_version) = Inr data_set
           \<and> map_of registered ds_name = Some data_set)
        \<and> \<not> dict_has patterns ds_name)"

section \<open>Templates in words\<close>






section \<open>The pattern of a name\<close>

text \<open>
  The pattern an unregistered name is resolved with: the one the cache has for it, or
  else the first sorted pattern that matches, which must not be the empty string. A name
  without one cannot be resolved.
\<close>

definition matched_pattern :: "('ds, 'd) env \<Rightarrow> 'ds state \<Rightarrow> string \<Rightarrow> string option" where
  "matched_pattern env s name =
     (case map_of (pattern_matches_cache (snd s)) name of
        Some pattern \<Rightarrow> Some pattern
      | None \<Rightarrow>
          (case match_name_against_patterns env s name of
             None \<Rightarrow> None
           | Some pattern \<Rightarrow> if pattern = [] then None else Some pattern))"


section \<open>Credential resolution on a heap of objects\<close>

text \<open>
  To say that \<open>_resolve_credentials\<close> does not change the objects it is given, the
  same function is written once more over a heap: a value is a scalar or a reference to a
  dictionary or a list object, and an object lives at an address below \<open>next_obj\<close>.
\<close>

datatype pyval = PNone | PBool bool | PInt int | PStr string | PRef nat

datatype pyobj = PDict "(string \<times> pyval) list" | PList "pyval list"

record heap =
  objs :: "nat \<Rightarrow> pyobj"
  next_obj :: nat

definition new_obj :: "pyobj \<Rightarrow> heap \<Rightarrow> nat \<times> heap" where
  "new_obj obj h = (next_obj h, h\<lparr>objs := (objs h)(next_obj h := obj), next_obj := Suc (next_obj h)\<rparr>)"

definition set_item :: "heap \<Rightarrow> nat \<Rightarrow> string \<Rightarrow> pyval \<Rightarrow> heap" where
  "set_item h target k v =
     h\<lparr>objs := (objs h)(target :=
          (case objs h target of
             PDict items \<Rightarrow> PDict (dict_set items k v)
           | PList elems \<Rightarrow> PList elems))\<rparr>"

definition append_elem :: "heap \<Rightarrow> nat \<Rightarrow> pyval \<Rightarrow> heap" where
  "append_elem h target v =
     h\<lparr>objs := (objs h)(target :=
          (case objs h target of
             PDict items \<Rightarrow> PDict items
           | PList elems \<Rightarrow> PList (elems @ [v])))\<rparr>"

text \<open>
  \<open>copy.deepcopy\<close>: a scalar is returned as it is; an object that the memo knows is
  the copy made before; any other object gets a new, empty copy, which is entered in the
  memo and then filled item by item. \<open>limit\<close> is the depth that Python's recursion limit
  leaves, and running out of it is a \<open>RecursionError\<close>.
\<close>

fun deepcopy :: "nat \<Rightarrow> (nat \<times> nat) list \<Rightarrow> heap \<Rightarrow> pyval \<Rightarrow> (error + pyval) \<times> (nat \<times> nat) list \<times> heap"
and deepcopy_items ::
  "nat \<Rightarrow> (nat \<times> nat) list \<Rightarrow> heap \<Rightarrow> nat \<Rightarrow> (string \<times> pyval) list \<Rightarrow> (error + unit) \<times> (nat \<times> nat) list \<times> heap"
and deepcopy_elems ::
  "nat \<Rightarrow> (nat \<times> nat) list \<Rightarrow> heap \<Rightarrow> nat \<Rightarrow> pyval list \<Rightarrow> (error + unit) \<times> (nat \<times> nat) list \<times> heap"
where
  "deepcopy limit memo h PNone = (Inr PNone, memo, h)"
| "deepcopy limit memo h (PBool b) = (Inr (PBool b), memo, h)"
| "deepcopy limit memo h (PInt i) = (Inr (PInt i), memo, h)"
| "deepcopy limit memo h (PStr s) = (Inr (PStr s), memo, h)"
| "deepcopy 0 memo h (PRef a) =
     (case map_of memo a of
        Some y \<Rightarrow> (Inr (PRef y), memo, h)
      | None \<Rightarrow> (Inl RecursionError, memo, h))"
| "deepcopy (Suc limit) memo h (PRef a) =
     (case map_of memo a of
        Some y \<Rightarrow> (Inr (PRef y), memo, h)
      | None \<Rightarrow>
          (case objs h a of
             PDict items \<Rightarrow>
               (case new_obj (PDict []) h of
                  (y, h1) \<Rightarrow>
                    (case deepcopy_items limit ((a, y) # memo) h1 y items of
                       (Inl e, memo', h2) \<Rightarrow> (Inl e, memo', h2)
                     | (Inr u, memo', h2) \<Rightarrow> (Inr (PRef y), memo', h2)))
           | PList elems \<Rightarrow>
               (case new_obj (PList []) h of
                  (y, h1) \<Rightarrow>
                    (case deepcopy_elems limit ((a, y) # memo) h1 y elems of
                       (Inl e, memo', h2) \<Rightarrow> (Inl e, memo', h2)
                     | (Inr u, memo', h2) \<Rightarrow> (Inr (PRef y), memo', h2)))))"
| "deepcopy_items limit memo h target [] = (Inr (), memo, h)"
| "deepcopy_items limit memo h target ((k, v) # rest) =
     (case deepcopy limit memo h v of
        (Inl e, memo', h1) \<Rightarrow> (Inl e, memo', h1)
      | (Inr v', memo', h1) \<Rightarrow> deepcopy_items limit memo' (set_item h1 target k v') target rest)"
| "deepcopy_elems limit memo h target [] = (Inr (), memo, h)"
| "deepcopy_elems limit memo h target (v # rest) =
     (case deepcopy limit memo h v of
        (Inl e, memo', h1) \<Rightarrow> (Inl e, memo', h1)
      | (Inr v', memo', h1) \<Rightarrow> deepcopy_elems limit memo' (append_elem h1 target v') target rest)"


text \<open>
  \<open>_get_credentials\<close>, \<open>_map_value\<close> and the dict comprehension over a heap: the
  table is read at its address, a mapping is an object that is a dictionary, and each
  comprehension allocates the dictionary it builds.
\<close>

definition get_credentials_h :: "heap \<Rightarrow> nat \<Rightarrow> string \<Rightarrow> error + pyval" where
  "get_credentials_h h credentials credentials_name =
     (case objs h credentials of
        PDict items \<Rightarrow>
          (case map_of items credentials_name of
             Some entry \<Rightarrow> Inr entry
           | None \<Rightarrow> Inl (missing_credentials credentials_name))
      | PList elems \<Rightarrow> Inl (TypeError ''list indices must be integers or slices, not str''))"

fun map_value_h :: "nat \<Rightarrow> nat \<Rightarrow> heap \<Rightarrow> string \<Rightarrow> pyval \<Rightarrow> (error + pyval) \<times> heap"
and map_items_h ::
  "nat \<Rightarrow> nat \<Rightarrow> heap \<Rightarrow> (string \<times> pyval) list \<Rightarrow> (error + (string \<times> pyval) list) \<times> heap"
where
  "map_value_h limit credentials h key (PStr s) =
     (if key = CREDENTIALS_KEY then (get_credentials_h h credentials s, h) else (Inr (PStr s), h))"
| "map_value_h 0 credentials h key (PRef a) =
     (case objs h a of
        PDict items \<Rightarrow> (Inl RecursionError, h)
      | PList elems \<Rightarrow> (Inr (PRef a), h))"
| "map_value_h (Suc limit) credentials h key (PRef a) =
     (case objs h a of
        PDict items \<Rightarrow>
          (case map_items_h limit credentials h items of
             (Inl e, h1) \<Rightarrow> (Inl e, h1)
           | (Inr items', h1) \<Rightarrow>
               (case new_obj (PDict items') h1 of (y, h2) \<Rightarrow> (Inr (PRef y), h2)))
      | PList elems \<Rightarrow> (Inr (PRef a), h))"
| "map_value_h limit credentials h key PNone = (Inr PNone, h)"
| "map_value_h limit credentials h key (PBool b) = (Inr (PBool b), h)"
| "map_value_h limit credentials h key (PInt i) = (Inr (PInt i), h)"
| "map_items_h limit credentials h [] = (Inr [], h)"
| "map_items_h limit credentials h ((k, v) # rest) =
     (case map_value_h limit credentials h k v of
        (Inl e, h1) \<Rightarrow> (Inl e, h1)
      | (Inr v', h1) \<Rightarrow>
          (case map_items_h limit credentials h1 rest of
             (Inl e, h2) \<Rightarrow> (Inl e, h2)
           | (Inr rest', h2) \<Rightarrow> (Inr ((k, v') # rest'), h2)))"

text \<open>
  \<open>_resolve_credentials\<close> over the heap: the config is deep-copied, and the items of
  the copy are mapped into a new dictionary.
\<close>

definition resolve_credentials_h :: "nat \<Rightarrow> heap \<Rightarrow> pyval \<Rightarrow> nat \<Rightarrow> (error + pyval) \<times> heap" where
  "resolve_credentials_h limit h config credentials =
     (case deepcopy limit [] h config of
        (Inl e, memo, h1) \<Rightarrow> (Inl e, h1)
      | (Inr (PRef c), memo, h1) \<Rightarrow>
          (case objs h1 c of
             PDict items \<Rightarrow>
               (case map_items_h limit credentials h1 items of
                  (Inl e, h2) \<Rightarrow> (Inl e, h2)
                | (Inr items', h2) \<Rightarrow>
                    (case new_obj (PDict items') h2 of (y, h3) \<Rightarrow> (Inr (PRef y), h3)))
           | PList elems \<Rightarrow>
               (Inl (AttributeError (quoted ''list'' @ '' object has no attribute '' @ quoted ''items'')), h1))
      | (Inr scalar, memo, h1) \<Rightarrow>
          (Inl (AttributeError (''object has no attribute '' @ quoted ''items'')), h1))"

text \<open>A heap keeps what another one has below an address.\<close>

definition preserves :: "nat \<Rightarrow> heap \<Rightarrow> heap \<Rightarrow> bool" where
  "preserves n h h' = (next_obj h \<le> next_obj h' \<and> (\<forall>a<n. objs h' a = objs h a))"


text \<open>
  A heap with a config (objects 0 and 1) and a credentials table (objects 2 and 3).
\<close>

definition example_heap :: heap where
  "example_heap =
     \<lparr>objs = (\<lambda>a. PDict [])
        (0 := PDict [(''credentials'', PStr ''secretA''), (''nested'', PRef 1)],
         1 := PDict [(''credentials'', PStr ''secretB'')],
         2 := PDict [(''secretA'', PRef 3), (''secretB'', PStr ''token'')],
         3 := PDict [(''user'', PStr ''me'')]),
      next_obj = 4\<rparr>"

section \<open>Facts about dictionaries\<close>


lemma map_of_dict_set: "map_of (dict_set d k v) = (map_of d)(k \<mapsto> v)"
  by (induction d k v rule: dict_set.induct) auto


lemma dict_keys_dict_set:
  "dict_keys (dict_set d k v) = (if dict_has d k then dict_keys d else dict_keys d @ [k])"
  by (induction d k v rule: dict_set.induct) (auto simp: dict_keys_def dict_has_def)

section \<open>What every call keeps\<close>

















lemma init_no_feed:
  "DataCatalog_init env dsa None la pa h =
     (Inr \<lparr>data_sets = next_ref h,
           datasets = FrozenDatasets_init [Mapping (case dsa of None \<Rightarrow> [] | Some d \<Rightarrow> d)],
           layers = la, dataset_patterns = Suc (next_ref h),
           sorted_dataset_patterns = sort_key pattern_key (dict_keys (case pa of None \<Rightarrow> [] | Some d \<Rightarrow> d)),
           pattern_matches_cache = []\<rparr>,
      h\<lparr>ds_dicts := (ds_dicts h)(next_ref h := (case dsa of None \<Rightarrow> [] | Some d \<Rightarrow> d)),
        pat_dicts := (pat_dicts h)(Suc (next_ref h) := (case pa of None \<Rightarrow> [] | Some d \<Rightarrow> d)),
        next_ref := Suc (Suc (next_ref h))\<rparr>)"
  by (simp add: DataCatalog_init_def new_ds_dict_def new_pat_dict_def Let_def)










section \<open>The order of the patterns\<close>









section \<open>Credential resolution, place by place\<close>

lemma get_credentials_eq:
  "get_credentials s cr = (case map_of cr s of Some entry \<Rightarrow> Inr entry | None \<Rightarrow> Inl (missing_credentials s))"
  by (simp add: get_credentials_def)

lemma map_items_keys: "map_items cr kvs = Inr kvs' \<Longrightarrow> map fst kvs' = map fst kvs"
  by (induction kvs arbitrary: kvs') (auto split: sum.splits)

lemma map_items_lookup:
  "map_items cr kvs = Inr kvs' \<Longrightarrow> map_of kvs k = Some v \<Longrightarrow>
   \<exists>v'. map_of kvs' k = Some v' \<and> map_value cr k v = Inr v'"
  by (induction kvs arbitrary: kvs') (auto split: sum.splits if_splits)

lemma map_items_lookup_none:
  "map_items cr kvs = Inr kvs' \<Longrightarrow> map_of kvs k = None \<Longrightarrow> map_of kvs' k = None"
  by (induction kvs arbitrary: kvs') (auto split: sum.splits if_splits)

lemma map_value_paths:
  "map_value cr key v = Inr v' \<Longrightarrow> get_path v p = Some u \<Longrightarrow>
   resolved_at cr (last_key key p) u (get_path v' p)"
proof (induction p arbitrary: key v v')
  case Nil
  then show ?case
    by (cases v) (auto simp: resolved_at_def last_key_def get_credentials_eq map_items_keys
        split: sum.splits option.splits if_splits)
next
  case (Cons k p)
  from Cons.prems(2) obtain kvs where v: "v = CDict kvs" by (cases v) auto
  from Cons.prems(1) v obtain kvs' where kvs': "map_items cr kvs = Inr kvs'" "v' = CDict kvs'"
    by (auto split: sum.splits)
  from Cons.prems(2) v obtain w where w: "map_of kvs k = Some w" "get_path w p = Some u"
    by (auto split: option.splits)
  from map_items_lookup[OF kvs'(1) w(1)] obtain w' where
    w': "map_of kvs' k = Some w'" "map_value cr k w = Inr w'" by blast
  have "resolved_at cr (last_key k p) u (get_path w' p)"
    using Cons.IH[OF w'(2) w(2)] .
  moreover have "last_key key (k # p) = last_key k p"
    by (simp add: last_key_def)
  ultimately show ?case using kvs'(2) w'(1) by simp
qed


lemma map_value_items_error:
  "map_value cr key v = Inl e \<Longrightarrow> unique_keys v \<Longrightarrow>
     \<exists>p s. get_path v p = Some (CStr s) \<and> last_key key p = CREDENTIALS_KEY
          \<and> map_of cr s = None \<and> e = missing_credentials s"
  "map_items cr kvs = Inl e \<Longrightarrow> unique_keys_items kvs \<Longrightarrow>
     \<exists>k p s. get_path (CDict kvs) (k # p) = Some (CStr s) \<and> last_key k p = CREDENTIALS_KEY
          \<and> map_of cr s = None \<and> e = missing_credentials s"
proof (induction cr key v and cr kvs arbitrary: e and e rule: map_value_map_items.induct)
  case (1 credentials key s)
  then have "get_path (CStr s) [] = Some (CStr s) \<and> last_key key [] = CREDENTIALS_KEY
      \<and> map_of credentials s = None \<and> e = missing_credentials s"
    by (auto simp: get_credentials_eq last_key_def split: if_splits option.splits)
  then show ?case by blast
next
  case (2 credentials key kvs)
  from "2.prems" have f: "map_items credentials kvs = Inl e" and u: "unique_keys_items kvs"
    by (auto split: sum.splits)
  from "2.IH"[OF f u] obtain k p s where
    "get_path (CDict kvs) (k # p) = Some (CStr s)" "last_key k p = CREDENTIALS_KEY"
    "map_of credentials s = None" "e = missing_credentials s" by blast
  moreover have "last_key key (k # p) = last_key k p" by (simp add: last_key_def)
  ultimately show ?case by metis
next
  case (8 credentials k v rest)
  show ?case
  proof (cases "map_value credentials k v")
    case (Inl e')
    with "8.prems" have e: "e' = e" and u: "unique_keys v" by auto
    from "8.IH"(1)[OF Inl[unfolded e] u] obtain p s where
      "get_path v p = Some (CStr s)" "last_key k p = CREDENTIALS_KEY"
      "map_of credentials s = None" "e = missing_credentials s" by blast
    then have "get_path (CDict ((k, v) # rest)) (k # p) = Some (CStr s) \<and> last_key k p = CREDENTIALS_KEY
      \<and> map_of credentials s = None \<and> e = missing_credentials s" by simp
    then show ?thesis by blast
  next
    case (Inr v')
    with "8.prems" have f: "map_items credentials rest = Inl e"
      and u: "unique_keys_items rest" and nk: "\<not> dict_has rest k"
      by (auto split: sum.splits)
    from "8.IH"(2)[OF Inr f u] obtain k' p s where
      g: "get_path (CDict rest) (k' # p) = Some (CStr s)" and
      r: "last_key k' p = CREDENTIALS_KEY" "map_of credentials s = None" "e = missing_credentials s"
      by blast
    from g have "map_of rest k' \<noteq> None" by (auto split: option.splits)
    with nk have "k' \<noteq> k" by (auto simp: dict_has_def)
    with g have "get_path (CDict ((k, v) # rest)) (k' # p) = Some (CStr s)" by simp
    with r show ?thesis by blast
  qed
qed simp_all

lemma resolve_credentials_as_value:
  "resolve_credentials config cr = Inr out \<Longrightarrow> map_value cr [] (CDict config) = Inr (CDict out)"
  "resolve_credentials config cr = Inl e \<Longrightarrow> map_value cr [] (CDict config) = Inl e"
  by (simp_all add: resolve_credentials_def)

text \<open>
  C6. For a config whose mappings have no key twice: when resolution returns, every place
  of the config that is reached through mappings holds, in the result, the table's entry
  if it held a string under the credentials key, a mapping with the same keys if it held a
  mapping, and the same value otherwise (sequences included, which are not walked into).
  When some string under the credentials key is not in the table, resolution fails with
  the \<open>KeyError\<close> whose message quotes such a string; when there is none, it returns.
\<close>

theorem credentials_resolved_at_every_depth:
  assumes "unique_keys_items config"
  shows "(\<forall>out p u. resolve_credentials config credentials = Inr out
             \<and> get_path (CDict config) p = Some u
           \<longrightarrow> resolved_at credentials (last_key [] p) u (get_path (CDict out) p))
     \<and> ((\<exists>p s. unresolved_reference config credentials p s)
          \<longrightarrow> (\<exists>p s. unresolved_reference config credentials p s
                 \<and> resolve_credentials config credentials = Inl (missing_credentials s)))
     \<and> ((\<forall>p s. \<not> unresolved_reference config credentials p s)
          \<longrightarrow> (\<exists>out. resolve_credentials config credentials = Inr out))"
proof -
  have ok: "resolved_at credentials (last_key [] p) u (get_path (CDict out) p)"
    if "resolve_credentials config credentials = Inr out" "get_path (CDict config) p = Some u"
    for out p u
  proof -
    have "map_value credentials [] (CDict config) = Inr (CDict out)"
      using that(1) by (rule resolve_credentials_as_value)
    then show ?thesis using that(2) by (rule map_value_paths)
  qed
  have err: "\<exists>p s. unresolved_reference config credentials p s \<and> e = missing_credentials s"
    if "resolve_credentials config credentials = Inl e" for e
  proof -
    have "map_value credentials [] (CDict config) = Inl e"
      using that by (rule resolve_credentials_as_value)
    moreover have "unique_keys (CDict config)" using assms by simp
    ultimately have "\<exists>p s. get_path (CDict config) p = Some (CStr s)
        \<and> last_key [] p = CREDENTIALS_KEY \<and> map_of credentials s = None
        \<and> e = missing_credentials s"
      by (rule map_value_items_error(1))
    then show ?thesis
      by (simp add: unresolved_reference_def)
  qed
  have fails: "\<exists>e. resolve_credentials config credentials = Inl e"
    if "unresolved_reference config credentials p s" for p s
  proof (cases "resolve_credentials config credentials")
    case (Inl e)
    then show ?thesis by blast
  next
    case (Inr out)
    from that have g: "get_path (CDict config) p = Some (CStr s)"
      and k: "last_key [] p = CREDENTIALS_KEY" and m: "map_of credentials s = None"
      by (simp_all add: unresolved_reference_def)
    from ok[OF Inr g] k m show ?thesis by (auto simp: resolved_at_def)
  qed
  have 2: "\<exists>p s. unresolved_reference config credentials p s
                 \<and> resolve_credentials config credentials = Inl (missing_credentials s)"
    if "\<exists>p s. unresolved_reference config credentials p s"
    using that fails err by metis
  have 3: "\<exists>out. resolve_credentials config credentials = Inr out"
    if "\<forall>p s. \<not> unresolved_reference config credentials p s"
    using that err by (cases "resolve_credentials config credentials") auto
  from ok 2 3 show ?thesis by blast
qed


theorem credentials_resolved_at_every_depth_witness:
  "unique_keys_items
     [(''credentials'', CStr ''secretA''), (''nested'', CDict [(''credentials'', CStr ''secretB'')])]
   \<and> resolve_credentials
        [(''credentials'', CStr ''secretA''), (''nested'', CDict [(''credentials'', CStr ''secretB'')])]
        [(''secretA'', CDict [(''user'', CStr ''a'')]), (''secretB'', CDict [(''user'', CStr ''b'')])]
      = Inr [(''credentials'', CDict [(''user'', CStr ''a'')]),
             (''nested'', CDict [(''credentials'', CDict [(''user'', CStr ''b'')])])]
   \<and> resolved_at
        [(''secretA'', CDict [(''user'', CStr ''a'')]), (''secretB'', CDict [(''user'', CStr ''b'')])]
        ''credentials'' (CStr ''secretB'') (Some (CDict [(''user'', CStr ''b'')]))
   \<and> unresolved_reference [(''credentials'', CStr ''secretC'')]
        [(''secretA'', CDict [(''user'', CStr ''a'')])] [''credentials''] ''secretC''
   \<and> resolve_credentials [(''credentials'', CStr ''secretC'')]
        [(''secretA'', CDict [(''user'', CStr ''a'')])] = Inl (missing_credentials ''secretC'')"
proof -
  let ?config = "[(''credentials'', CStr ''secretA''),
                  (''nested'', CDict [(''credentials'', CStr ''secretB'')])]"
  let ?table = "[(''secretA'', CDict [(''user'', CStr ''a'')]),
                 (''secretB'', CDict [(''user'', CStr ''b'')])]"
  let ?out = "[(''credentials'', CDict [(''user'', CStr ''a'')]),
               (''nested'', CDict [(''credentials'', CDict [(''user'', CStr ''b'')])])]"
  have u: "unique_keys_items ?config" by (simp add: dict_has_def)
  have r: "resolve_credentials ?config ?table = Inr ?out"
    by (simp add: resolve_credentials_def get_credentials_def CREDENTIALS_KEY_def)
  have g: "get_path (CDict ?config) [''nested'', ''credentials''] = Some (CStr ''secretB'')"
    by simp
  have "resolved_at ?table (last_key [] [''nested'', ''credentials'']) (CStr ''secretB'')
          (get_path (CDict ?out) [''nested'', ''credentials''])"
    using credentials_resolved_at_every_depth[OF u, of ?table] r g by blast
  then have a: "resolved_at ?table ''credentials'' (CStr ''secretB'') (Some (CDict [(''user'', CStr ''b'')]))"
    by (simp add: last_key_def)
  have m: "unresolved_reference [(''credentials'', CStr ''secretC'')]
        [(''secretA'', CDict [(''user'', CStr ''a'')])] [''credentials''] ''secretC''"
    by (simp add: unresolved_reference_def last_key_def CREDENTIALS_KEY_def)
  have f: "resolve_credentials [(''credentials'', CStr ''secretC'')]
        [(''secretA'', CDict [(''user'', CStr ''a'')])] = Inl (missing_credentials ''secretC'')"
    by (simp add: resolve_credentials_def get_credentials_def CREDENTIALS_KEY_def)
  from u r a m f show ?thesis by blast
qed

section \<open>Construction from configuration: the check of the load versions\<close>

text \<open>
  C7. When \<open>load_versions\<close> has a name that the catalog config lacks, construction fails
  with the \<open>DatasetNotFoundError\<close> that lists the missing names, that name among them.
  The store is as before, and the result is the same whatever the dataset constructor
  and the other collaborators are: none of them is reached.
\<close>

theorem missing_load_version_fails_first:
  fixes env :: "('ds, 'd) env"
  assumes "k \<in> set (dict_keys load_versions)"
    and "\<not> dict_has (case catalog of None \<Rightarrow> [] | Some c \<Rightarrow> c) k"
  shows "\<exists>missing_keys. k \<in> set missing_keys
     \<and> from_config env catalog credentials (Some load_versions) save_version h =
           (Inl (DatasetNotFoundError (load_versions_message missing_keys)), h)
     \<and> (\<forall>env' :: ('ds, 'd) env.
           from_config env' catalog credentials (Some load_versions) save_version h =
           (Inl (DatasetNotFoundError (load_versions_message missing_keys)), h))"
proof -
  let ?cat = "case catalog of None \<Rightarrow> [] | Some c \<Rightarrow> c"
  let ?missing = "filter (\<lambda>k. \<not> dict_has ?cat k) (dict_keys load_versions)"
  have m: "k \<in> set ?missing" using assms by simp
  then have ne: "?missing \<noteq> []" by (metis empty_iff empty_set)
  have r: "from_config e catalog credentials (Some load_versions) save_version h =
           (Inl (DatasetNotFoundError (load_versions_message ?missing)), h)"
    for e :: "('ds, 'd) env"
    using ne by (simp add: from_config_def Let_def)
  from m r show ?thesis by blast
qed

theorem missing_load_version_fails_first_witness:
  "''missing_name'' \<in> set (dict_keys [(''missing_name'', ''v1'')])
   \<and> \<not> dict_has (case Some [(''cars'', [(''type'', CStr ''MemoryDataset'')])] of
                    None \<Rightarrow> [] | Some c \<Rightarrow> c) ''missing_name''
   \<and> from_config example_env (Some [(''cars'', [(''type'', CStr ''MemoryDataset'')])]) None
        (Some [(''missing_name'', ''v1'')]) None empty_store
      = (Inl (DatasetNotFoundError (load_versions_message [''missing_name''])), empty_store)"
proof -
  have a: "''missing_name'' \<in> set (dict_keys [(''missing_name'', ''v1'')])"
    by (simp add: dict_keys_def)
  have b: "\<not> dict_has (case Some [(''cars'', [(''type'', CStr ''MemoryDataset'')])] of
                    None \<Rightarrow> [] | Some c \<Rightarrow> c) ''missing_name''"
    by (simp add: dict_has_def)
  obtain missing_keys where
    "from_config example_env (Some [(''cars'', [(''type'', CStr ''MemoryDataset'')])]) None
        (Some [(''missing_name'', ''v1'')]) None empty_store
      = (Inl (DatasetNotFoundError (load_versions_message missing_keys)), empty_store)"
    using missing_load_version_fails_first[OF a b, of example_env None None empty_store] by blast
  moreover have "from_config example_env (Some [(''cars'', [(''type'', CStr ''MemoryDataset'')])]) None
        (Some [(''missing_name'', ''v1'')]) None empty_store
      = (Inl (DatasetNotFoundError (load_versions_message [''missing_name''])), empty_store)"
    by (simp add: from_config_def Let_def dict_keys_def dict_has_def)
  ultimately show ?thesis using a b by simp
qed

section \<open>The frozen view is read-only for assignment\<close>

text \<open>
  C8, as the code has it. Setting an attribute of a frozen view always fails with an
  \<open>AttributeError\<close> and leaves the view as it was. The message tells an attribute that
  exists (change datasets through configuration) from one that does not (use
  \<open>DataCatalog.add()\<close>), and the two messages differ.
\<close>

theorem setattr_always_refused:
  "FrozenDatasets_setattr view key v =
     (Inl (AttributeError
        (if dict_has view key
         then ''Operation not allowed! Please change datasets through configuration.''
         else ''Operation not allowed! Please use DataCatalog.add() instead.'')), view)
   \<and> ''Operation not allowed! Please change datasets through configuration.''
      \<noteq> ''Operation not allowed! Please use DataCatalog.add() instead.''"
  by (simp add: FrozenDatasets_setattr_def Let_def)

theorem setattr_always_refused_witness:
  "FrozenDatasets_setattr [(''raw__data_'', 0::nat)] ''raw__data_'' (1::nat) =
     (Inl (AttributeError ''Operation not allowed! Please change datasets through configuration.''),
      [(''raw__data_'', 0)])
   \<and> FrozenDatasets_setattr [(''raw__data_'', 0::nat)] ''other'' (1::nat) =
     (Inl (AttributeError ''Operation not allowed! Please use DataCatalog.add() instead.''),
      [(''raw__data_'', 0)])"
  using setattr_always_refused[of "[(''raw__data_'', 0::nat)]" "''raw__data_''" "1::nat"]
    setattr_always_refused[of "[(''raw__data_'', 0::nat)]" "''other''" "1::nat"]
  by (simp add: dict_has_def)

text \<open>
  C8 as stated fails for deletion, which the class does not intercept: deleting an
  attribute that exists succeeds and removes the entry.
\<close>

theorem delete_not_refused_counterexample:
  "FrozenDatasets_delattr [(''cars'', 0::nat)] ''cars'' = (Inr (), [])"
  by (simp add: FrozenDatasets_delattr_def dict_has_def dict_pop_def)

section \<open>Construction from configuration: the entries\<close>

lemma from_config_loop_frame:
  "from_config_loop env cr lv sv entries (D, P, L) = Inr (D', P', L') \<Longrightarrow>
   n \<notin> fst ` set entries \<Longrightarrow> map_of D' n = map_of D n \<and> map_of P' n = map_of P n"
proof (induction entries arbitrary: D P L)
  case Nil
  then show ?case by simp
next
  case (Cons e entries)
  obtain k c where e: "e = (k, c)" by (cases e)
  from Cons.prems(2) e have nk: "n \<noteq> k" and nin: "n \<notin> fst ` set entries" by auto
  show ?case
  proof (cases "CHR ''}'' \<in> set k")
    case True
    with Cons.prems(1) e have
      "from_config_loop env cr lv sv entries (D, dict_set P k c, L) = Inr (D', P', L')" by simp
    from Cons.IH[OF this nin] nk show ?thesis by (simp add: map_of_dict_set)
  next
    case False
    with Cons.prems(1) e obtain L1 r d where
      "from_config_loop env cr lv sv entries (dict_set D k d, P, L1) = Inr (D', P', L')"
      by (auto simp: Let_def split: if_splits sum.splits)
    from Cons.IH[OF this nin] nk show ?thesis by (simp add: map_of_dict_set)
  qed
qed

lemma from_config_loop_entries:
  "from_config_loop env cr lv sv entries (D, P, L) = Inr (D', P', L') \<Longrightarrow>
   distinct (map fst entries) \<Longrightarrow> (n, c) \<in> set entries \<Longrightarrow>
   (if CHR ''}'' \<in> set n then map_of D' n = map_of D n \<and> map_of P' n = Some c
    else (\<exists>resolved data_set.
           resolve_credentials (dict_pop c ''layer'') cr = Inr resolved
           \<and> AbstractDataSet_from_config env n resolved (map_of lv n) (Some sv) = Inr data_set
           \<and> map_of D' n = Some data_set)
         \<and> map_of P' n = map_of P n)"
proof (induction entries arbitrary: D P L)
  case Nil
  then show ?case by simp
next
  case (Cons e entries)
  obtain k c0 where e: "e = (k, c0)" by (cases e)
  from Cons.prems(2) e have kn: "k \<notin> fst ` set entries" and d: "distinct (map fst entries)"
    by auto
  show ?case
  proof (cases "CHR ''}'' \<in> set k")
    case True
    with Cons.prems(1) e have
      l: "from_config_loop env cr lv sv entries (D, dict_set P k c0, L) = Inr (D', P', L')" by simp
    show ?thesis
    proof (cases "(n, c) \<in> set entries")
      case True
      then have "n \<noteq> k" using kn by force
      with Cons.IH[OF l d True] show ?thesis
        by (auto simp: map_of_dict_set split: if_splits)
    next
      case False
      with Cons.prems(3) e have nk: "n = k" "c = c0" by auto
      from from_config_loop_frame[OF l kn] nk \<open>CHR ''}'' \<in> set k\<close> show ?thesis
        by (simp add: map_of_dict_set)
    qed
  next
    case False
    with Cons.prems(1) e obtain L1 r d0 where
      r: "resolve_credentials (dict_pop c0 ''layer'') cr = Inr r" and
      f: "AbstractDataSet_from_config env k r (map_of lv k) (Some sv) = Inr d0" and
      l: "from_config_loop env cr lv sv entries (dict_set D k d0, P, L1) = Inr (D', P', L')"
      by (auto simp: Let_def split: if_splits sum.splits)
    show ?thesis
    proof (cases "(n, c) \<in> set entries")
      case True
      then have "n \<noteq> k" using kn by force
      with Cons.IH[OF l d True] show ?thesis
        by (auto simp: map_of_dict_set split: if_splits)
    next
      case notin: False
      with Cons.prems(3) e have nk: "n = k" "c = c0" by auto
      from from_config_loop_frame[OF l kn] nk False r f show ?thesis
        by (auto simp: map_of_dict_set)
    qed
  qed
qed


lemma from_config_result:
  assumes "from_config env catalog credentials load_versions save_version h = (Inr c, h')"
  shows "\<exists>L. from_config_loop env (case credentials of None \<Rightarrow> [] | Some x \<Rightarrow> x)
             (case load_versions of None \<Rightarrow> [] | Some x \<Rightarrow> x)
             (shared_save_version env save_version)
             (case catalog of None \<Rightarrow> [] | Some x \<Rightarrow> x) ([], [], [])
           = Inr (the_data_sets (h', c), the_patterns (h', c), L)"
  using assms
  by (auto simp: from_config_def Let_def init_no_feed new_layer_dict_def the_data_sets_def
      the_patterns_def split: if_splits sum.splits prod.splits)

lemma constructed_Some: "constructed r = Some (h', c) \<longleftrightarrow> r = (Inr c, h')"
  by (auto simp: constructed_def split: prod.splits sum.splits)

text \<open>
  C4, as the code has it. When construction from a config with distinct names returns a
  catalog, every entry has been treated by its name: a name with a closing brace is not
  registered and is a pattern whose template is the entry's config as it is (credentials
  not resolved); any other name is not a pattern and is registered with the dataset the
  constructor made from the config with credentials resolved, the load version of that
  name if \<open>load_versions\<close> has one, and the shared save version.
\<close>

theorem from_config_entries:
  assumes "from_config env (Some catalog) credentials load_versions save_version h = (Inr c, h')"
    and "distinct (dict_keys catalog)"
    and "(ds_name, ds_config) \<in> set catalog"
  shows "entry_done env (case credentials of None \<Rightarrow> [] | Some x \<Rightarrow> x)
           (case load_versions of None \<Rightarrow> [] | Some x \<Rightarrow> x)
           (shared_save_version env save_version)
           (the_data_sets (h', c)) (the_patterns (h', c)) ds_name ds_config"
proof -
  from from_config_result[OF assms(1)] obtain L where
    l: "from_config_loop env (case credentials of None \<Rightarrow> [] | Some x \<Rightarrow> x)
             (case load_versions of None \<Rightarrow> [] | Some x \<Rightarrow> x)
             (shared_save_version env save_version) catalog ([], [], [])
           = Inr (the_data_sets (h', c), the_patterns (h', c), L)"
    by auto
  have d: "distinct (map fst catalog)" using assms(2) by (simp add: dict_keys_def)
  from from_config_loop_entries[OF l d assms(3)] show ?thesis
    by (auto simp: entry_done_def dict_has_def split: if_splits)
qed


theorem from_config_entries_witness:
  "\<exists>c h'.
     from_config example_env
       (Some [(''{name}'', [(''type'', CStr ''CSV''), (''credentials'', CStr ''key'')]),
              (''cars'', [(''type'', CStr ''CSV''), (''layer'', CStr ''raw''),
                          (''credentials'', CStr ''key'')])])
       (Some [(''key'', CDict [(''user'', CStr ''me'')])])
       (Some [(''cars'', ''v1'')]) None empty_store = (Inr c, h')
     \<and> map_of (the_data_sets (h', c)) ''cars''
         = Some [(''type'', CStr ''CSV''), (''credentials'', CDict [(''user'', CStr ''me'')])]
     \<and> \<not> dict_has (the_patterns (h', c)) ''cars''
     \<and> \<not> dict_has (the_data_sets (h', c)) ''{name}''
     \<and> map_of (the_patterns (h', c)) ''{name}''
         = Some [(''type'', CStr ''CSV''), (''credentials'', CStr ''key'')]"
proof -
  let ?cat = "[(''{name}'', [(''type'', CStr ''CSV''), (''credentials'', CStr ''key'')]),
              (''cars'', [(''type'', CStr ''CSV''), (''layer'', CStr ''raw''),
                          (''credentials'', CStr ''key'')])]"
  let ?cr = "[(''key'', CDict [(''user'', CStr ''me'')])]"
  have "constructed (from_config example_env (Some ?cat) (Some ?cr) (Some [(''cars'', ''v1'')])
          None empty_store) \<noteq> None"
    by (simp add: constructed_def from_config_def Let_def dict_has_def dict_keys_def dict_pop_def
        resolve_credentials_def get_credentials_def CREDENTIALS_KEY_def example_env_def
        init_no_feed new_layer_dict_def shared_save_version_def)
  then obtain c h' where
    f: "from_config example_env (Some ?cat) (Some ?cr) (Some [(''cars'', ''v1'')]) None empty_store
          = (Inr c, h')"
    by (auto simp: constructed_Some)
  have d: "distinct (dict_keys ?cat)" by (simp add: dict_keys_def)
  have 1: "entry_done example_env ?cr [(''cars'', ''v1'')] (shared_save_version example_env None)
      (the_data_sets (h', c)) (the_patterns (h', c)) ''cars''
      [(''type'', CStr ''CSV''), (''layer'', CStr ''raw''), (''credentials'', CStr ''key'')]"
    using from_config_entries[OF f d, of "''cars''"] by simp
  have 2: "entry_done example_env ?cr [(''cars'', ''v1'')] (shared_save_version example_env None)
      (the_data_sets (h', c)) (the_patterns (h', c)) ''{name}''
      [(''type'', CStr ''CSV''), (''credentials'', CStr ''key'')]"
    using from_config_entries[OF f d, of "''{name}''"] by simp
  from 1 have a: "map_of (the_data_sets (h', c)) ''cars''
         = Some [(''type'', CStr ''CSV''), (''credentials'', CDict [(''user'', CStr ''me'')])]"
    and b: "\<not> dict_has (the_patterns (h', c)) ''cars''"
    by (auto simp: entry_done_def dict_pop_def resolve_credentials_def get_credentials_def
        CREDENTIALS_KEY_def example_env_def)
  from 2 have "\<not> dict_has (the_data_sets (h', c)) ''{name}''
     \<and> map_of (the_patterns (h', c)) ''{name}''
         = Some [(''type'', CStr ''CSV''), (''credentials'', CStr ''key'')]"
    by (simp add: entry_done_def)
  with f a b show ?thesis by blast
qed

text \<open>
  C4 as stated fails for a name with a closing brace and no opening one: it has no
  placeholder delimiter pair, and yet it is stored as a pattern and no dataset is made.
\<close>

theorem closing_brace_alone_counterexample:
  "\<not> has_placeholder_pair ''a}b''
   \<and> map_option (\<lambda>s. (dict_has (the_data_sets s) ''a}b'', map_of (the_patterns s) ''a}b''))
        (constructed (from_config example_env (Some [(''a}b'', [(''type'', CStr ''CSV'')])])
           None None None empty_store))
      = Some (False, Some [(''type'', CStr ''CSV'')])"
  by (simp add: has_placeholder_pair_def constructed_def from_config_def Let_def dict_has_def
      dict_keys_def init_no_feed shared_save_version_def the_data_sets_def the_patterns_def)

section \<open>A dataset from a pattern\<close>











lemma example_state_constructed:
  "constructed (from_config example_env (Some example_catalog) None None None empty_store)
     = Some example_state"
  by (simp add: constructed_def from_config_def Let_def dict_has_def dict_keys_def
      init_no_feed shared_save_version_def example_catalog_def example_state_def empty_store_def
      pattern_key_def specificity_def placeholder_count_def FrozenDatasets_init_def dict_update_def)





section \<open>Resolving a name once\<close>



lemma exists_in_catalog_config_True:
  "exists_in_catalog_config env s n = (True, s1) \<Longrightarrow> \<not> dict_has (the_data_sets s) n \<Longrightarrow>
   dict_has (pattern_matches_cache (snd s1)) n"
  by (auto simp: exists_in_catalog_config_def dict_has_def map_of_dict_set
      split: if_splits option.splits)









section \<open>Asking whether data exists\<close>








section \<open>A shallow copy has its own dictionaries\<close>

lemma add_store:
  "fst (snd (add s n d r)) = fst s
   \<or> fst (snd (add s n d r)) =
       (fst s)\<lparr>ds_dicts := (ds_dicts (fst s))(data_sets (snd s) := dict_set (the_data_sets s) n d)\<rparr>"
  by (simp add: add_def Let_def)

text \<open>
  C3, as the code has it. The shallow copy of a catalog is a catalog whose dictionary of
  datasets and dictionary of patterns are new objects with the entries of the original's
  (the same datasets, the same templates), and whose layers are the original's own
  object; the patterns are sorted again. Adding a dataset to the copy leaves the
  original's dictionary of datasets as it was, and adding one to the original leaves the
  copy's.
\<close>

theorem shallow_copy_has_its_own_maps:
  assumes "allocated s"
  shows "\<exists>c2 h2. shallow_copy env s = (Inr c2, h2)
     \<and> data_sets c2 \<noteq> data_sets (snd s)
     \<and> dataset_patterns c2 \<noteq> dataset_patterns (snd s)
     \<and> the_data_sets (h2, c2) = the_data_sets s
     \<and> the_patterns (h2, c2) = the_patterns s
     \<and> layers c2 = layers (snd s)
     \<and> sorted_dataset_patterns c2 = sort_key pattern_key (dict_keys (the_patterns s))
     \<and> the_data_sets (h2, snd s) = the_data_sets s
     \<and> (\<forall>name d r. the_data_sets (fst (snd (add (h2, c2) name d r)), snd s) = the_data_sets s)
     \<and> (\<forall>name d r. the_data_sets (fst (snd (add (h2, snd s) name d r)), c2) = the_data_sets s)"
proof -
  let ?h = "fst s" and ?c = "snd s"
  let ?c2 = "\<lparr>data_sets = next_ref ?h,
           datasets = FrozenDatasets_init [Mapping (the_data_sets s)],
           layers = layers ?c, dataset_patterns = Suc (next_ref ?h),
           sorted_dataset_patterns = sort_key pattern_key (dict_keys (the_patterns s)),
           pattern_matches_cache = []\<rparr>"
  let ?h2 = "?h\<lparr>ds_dicts := (ds_dicts ?h)(next_ref ?h := the_data_sets s),
        pat_dicts := (pat_dicts ?h)(Suc (next_ref ?h) := the_patterns s),
        next_ref := Suc (Suc (next_ref ?h))\<rparr>"
  have sc: "shallow_copy env s = (Inr ?c2, ?h2)"
    by (simp add: shallow_copy_def init_no_feed)
  have lt: "data_sets ?c < next_ref ?h" "dataset_patterns ?c < next_ref ?h"
    using assms by (simp_all add: allocated_def)
  have 1: "data_sets ?c2 \<noteq> data_sets ?c" "dataset_patterns ?c2 \<noteq> dataset_patterns ?c"
    using lt by simp_all
  have 2: "the_data_sets (?h2, ?c2) = the_data_sets s" "the_patterns (?h2, ?c2) = the_patterns s"
    "the_data_sets (?h2, ?c) = the_data_sets s"
    using lt by (simp_all add: the_data_sets_def the_patterns_def)
  have 3: "the_data_sets (fst (snd (add (?h2, ?c2) name d r)), ?c) = the_data_sets s" for name d r
    using add_store[of "(?h2, ?c2)" name d r] lt
    by (auto simp: the_data_sets_def)
  have 4: "the_data_sets (fst (snd (add (?h2, ?c) name d r)), ?c2) = the_data_sets s" for name d r
    using add_store[of "(?h2, ?c)" name d r] lt
    by (auto simp: the_data_sets_def)
  from sc 1 2 3 4 show ?thesis by simp
qed

theorem shallow_copy_has_its_own_maps_witness:
  "allocated example_state
   \<and> (\<exists>c2 h2. shallow_copy example_env example_state = (Inr c2, h2)
        \<and> data_sets c2 \<noteq> data_sets (snd example_state)
        \<and> the_patterns (h2, c2) = example_catalog
        \<and> the_data_sets (fst (snd (add (h2, c2) ''cars'' [(''type'', CStr ''CSV'')] False)),
                          snd example_state) = [])"
proof -
  have a: "allocated example_state"
    by (simp add: allocated_def example_state_def)
  have d: "the_data_sets example_state = []" and p: "the_patterns example_state = example_catalog"
    by (simp_all add: the_data_sets_def the_patterns_def example_state_def empty_store_def)
  from shallow_copy_has_its_own_maps[OF a, of example_env] obtain c2 h2 where
    "shallow_copy example_env example_state = (Inr c2, h2)"
    "data_sets c2 \<noteq> data_sets (snd example_state)"
    "the_patterns (h2, c2) = the_patterns example_state"
    "\<And>name d r. the_data_sets (fst (snd (add (h2, c2) name d r)), snd example_state)
        = the_data_sets example_state"
    by blast
  with a d p show ?thesis by auto
qed

text \<open>
  C3 as stated fails: the copy does not share the dictionary of datasets. A dataset
  added to the copy is in the copy's dictionary and not in the original's.
\<close>

theorem shallow_copy_shares_no_map_counterexample:
  "map_option
     (\<lambda>s2. (map_of (the_data_sets (snd (add s2 ''cars'' [(''type'', CStr ''CSV'')] False))) ''cars'',
            map_of (the_data_sets
                      (fst (snd (add s2 ''cars'' [(''type'', CStr ''CSV'')] False)), snd example_state))
              ''cars'',
            data_sets (snd s2) = data_sets (snd example_state)))
     (constructed (shallow_copy example_env example_state))
   = Some (Some [(''type'', CStr ''CSV'')], None, False)"
  by (simp add: constructed_def shallow_copy_def init_no_feed add_def Let_def the_data_sets_def
      the_patterns_def example_state_def empty_store_def dict_has_def)

section \<open>Credential resolution changes no object\<close>

lemma preserves_refl: "preserves n h h"
  by (simp add: preserves_def)

lemma preserves_trans: "preserves n h h1 \<Longrightarrow> preserves n h1 h2 \<Longrightarrow> preserves n h h2"
  by (auto simp: preserves_def)

lemma preserves_new_obj: "new_obj obj h = (y, h1) \<Longrightarrow> n \<le> next_obj h \<Longrightarrow> preserves n h h1"
  by (auto simp: new_obj_def preserves_def)

lemma new_obj_next: "new_obj obj h = (y, h1) \<Longrightarrow> y = next_obj h \<and> next_obj h1 = Suc (next_obj h)"
  by (auto simp: new_obj_def)

lemma preserves_set_item: "n \<le> target \<Longrightarrow> preserves n h (set_item h target k v)"
  by (simp add: set_item_def preserves_def)

lemma preserves_append_elem: "n \<le> target \<Longrightarrow> preserves n h (append_elem h target v)"
  by (simp add: append_elem_def preserves_def)

lemma preserves_next: "preserves n h h' \<Longrightarrow> m \<le> next_obj h \<Longrightarrow> m \<le> next_obj h'"
  by (simp add: preserves_def)

lemma deepcopy_preserves:
  "deepcopy limit memo h v = (r, memo', h') \<Longrightarrow> n \<le> next_obj h \<Longrightarrow> preserves n h h'"
  "deepcopy_items limit memo h target items = (ru, memo', h') \<Longrightarrow> n \<le> next_obj h \<Longrightarrow>
     n \<le> target \<Longrightarrow> preserves n h h'"
  "deepcopy_elems limit memo h target elems = (ru, memo', h') \<Longrightarrow> n \<le> next_obj h \<Longrightarrow>
     n \<le> target \<Longrightarrow> preserves n h h'"
proof (induction limit memo h v and limit memo h target items and limit memo h target elems
    arbitrary: r memo' h' and ru memo' h' and ru memo' h'
    rule: deepcopy_deepcopy_items_deepcopy_elems.induct)
  case (6 limit memo h a)
  show ?case
  proof (cases "map_of memo a")
    case (Some y)
    with "6.prems" show ?thesis by (simp add: preserves_refl)
  next
    case None
    show ?thesis
    proof (cases "objs h a")
      case (PDict items)
      obtain y h1 where n: "new_obj (PDict []) h = (y, h1)" by (cases "new_obj (PDict []) h")
      obtain ru m2 h2 where d: "deepcopy_items limit ((a, y) # memo) h1 y items = (ru, m2, h2)"
        by (cases "deepcopy_items limit ((a, y) # memo) h1 y items")
      from "6.prems"(1) None PDict n d have h': "h' = h2" by (auto split: sum.splits)
      have p1: "preserves n h h1" using n "6.prems"(2) by (rule preserves_new_obj)
      have "n \<le> next_obj h1" "n \<le> y"
        using new_obj_next[OF n] "6.prems"(2) by simp_all
      then have "preserves n h1 h2"
        using "6.IH"(1)[OF None PDict n[symmetric] d] by simp
      with p1 show ?thesis unfolding h' by (rule preserves_trans)
    next
      case (PList elems)
      obtain y h1 where n: "new_obj (PList []) h = (y, h1)" by (cases "new_obj (PList []) h")
      obtain ru m2 h2 where d: "deepcopy_elems limit ((a, y) # memo) h1 y elems = (ru, m2, h2)"
        by (cases "deepcopy_elems limit ((a, y) # memo) h1 y elems")
      from "6.prems"(1) None PList n d have h': "h' = h2" by (auto split: sum.splits)
      have p1: "preserves n h h1" using n "6.prems"(2) by (rule preserves_new_obj)
      have "n \<le> next_obj h1" "n \<le> y"
        using new_obj_next[OF n] "6.prems"(2) by simp_all
      then have "preserves n h1 h2"
        using "6.IH"(2)[OF None PList n[symmetric] d] by simp
      with p1 show ?thesis unfolding h' by (rule preserves_trans)
    qed
  qed
next
  case (8 limit memo h target k v rest)
  obtain r1 m1 h1 where d: "deepcopy limit memo h v = (r1, m1, h1)"
    by (cases "deepcopy limit memo h v")
  have p1: "preserves n h h1" using "8.IH"(1)[OF d "8.prems"(2)] .
  show ?case
  proof (cases r1)
    case (Inl e)
    with "8.prems"(1) d have "h' = h1" by simp
    with p1 show ?thesis by simp
  next
    case (Inr v')
    with "8.prems"(1) d have
      r: "deepcopy_items limit m1 (set_item h1 target k v') target rest = (ru, memo', h')" by simp
    have p2: "preserves n h1 (set_item h1 target k v')"
      using "8.prems"(3) by (rule preserves_set_item)
    have "n \<le> next_obj (set_item h1 target k v')"
      using preserves_next[OF preserves_trans[OF p1 p2] "8.prems"(2)] .
    then have "preserves n (set_item h1 target k v') h'"
      using "8.IH"(2)[OF d[symmetric] _ _ r] Inr "8.prems"(3) by simp
    with p1 p2 show ?thesis by (blast intro: preserves_trans)
  qed
next
  case (10 limit memo h target v rest)
  obtain r1 m1 h1 where d: "deepcopy limit memo h v = (r1, m1, h1)"
    by (cases "deepcopy limit memo h v")
  have p1: "preserves n h h1" using "10.IH"(1)[OF d "10.prems"(2)] .
  show ?case
  proof (cases r1)
    case (Inl e)
    with "10.prems"(1) d have "h' = h1" by simp
    with p1 show ?thesis by simp
  next
    case (Inr v')
    with "10.prems"(1) d have
      r: "deepcopy_elems limit m1 (append_elem h1 target v') target rest = (ru, memo', h')" by simp
    have p2: "preserves n h1 (append_elem h1 target v')"
      using "10.prems"(3) by (rule preserves_append_elem)
    have "n \<le> next_obj (append_elem h1 target v')"
      using preserves_next[OF preserves_trans[OF p1 p2] "10.prems"(2)] .
    then have "preserves n (append_elem h1 target v') h'"
      using "10.IH"(2)[OF d[symmetric] _ _ r] Inr "10.prems"(3) by simp
    with p1 p2 show ?thesis by (blast intro: preserves_trans)
  qed
qed (auto simp: preserves_refl split: option.splits)


lemma map_value_h_preserves:
  "map_value_h limit cr h key v = (r, h') \<Longrightarrow> n \<le> next_obj h \<Longrightarrow> preserves n h h'"
  "map_items_h limit cr h items = (ri, h') \<Longrightarrow> n \<le> next_obj h \<Longrightarrow> preserves n h h'"
proof (induction limit cr h key v and limit cr h items arbitrary: r h' and ri h'
    rule: map_value_h_map_items_h.induct)
  case (3 limit credentials h key a)
  show ?case
  proof (cases "objs h a")
    case (PDict items)
    obtain ri h1 where m: "map_items_h limit credentials h items = (ri, h1)"
      by (cases "map_items_h limit credentials h items")
    have p1: "preserves n h h1" using "3.IH"[OF PDict m "3.prems"(2)] .
    show ?thesis
    proof (cases ri)
      case (Inl e)
      with "3.prems"(1) PDict m have "h' = h1" by simp
      with p1 show ?thesis by simp
    next
      case (Inr items')
      obtain y h2 where n: "new_obj (PDict items') h1 = (y, h2)"
        by (cases "new_obj (PDict items') h1")
      with "3.prems"(1) PDict m Inr have h': "h' = h2" by simp
      have "n \<le> next_obj h1" using preserves_next[OF p1 "3.prems"(2)] .
      with n have "preserves n h1 h2" by (rule preserves_new_obj)
      with p1 show ?thesis unfolding h' by (rule preserves_trans)
    qed
  next
    case (PList elems)
    with "3.prems"(1) show ?thesis by (simp add: preserves_refl)
  qed
next
  case (8 limit credentials h k v rest)
  obtain r1 h1 where m: "map_value_h limit credentials h k v = (r1, h1)"
    by (cases "map_value_h limit credentials h k v")
  have p1: "preserves n h h1" using "8.IH"(1)[OF m "8.prems"(2)] .
  show ?case
  proof (cases r1)
    case (Inl e)
    with "8.prems"(1) m have "h' = h1" by simp
    with p1 show ?thesis by simp
  next
    case (Inr v')
    obtain r2 h2 where m2: "map_items_h limit credentials h1 rest = (r2, h2)"
      by (cases "map_items_h limit credentials h1 rest")
    with "8.prems"(1) m Inr have h': "h' = h2" by (auto split: sum.splits)
    have "n \<le> next_obj h1" using preserves_next[OF p1 "8.prems"(2)] .
    then have "preserves n h1 h2" using "8.IH"(2)[OF m[symmetric] Inr m2] by simp
    with p1 show ?thesis unfolding h' by (rule preserves_trans)
  qed
qed (auto simp: preserves_refl split: if_splits pyobj.splits)

text \<open>
  C9. Whatever \<open>_resolve_credentials\<close> returns or raises, every object that existed
  before the call, the config tree and the credentials table among them, is afterwards
  what it was: the call only allocates. The config it returns is a new object.
\<close>

theorem resolve_credentials_leaves_inputs:
  assumes "resolve_credentials_h limit h config credentials = (r, h')"
  shows "next_obj h \<le> next_obj h'
     \<and> (\<forall>a<next_obj h. objs h' a = objs h a)
     \<and> (\<forall>y. r = Inr (PRef y) \<longrightarrow> next_obj h \<le> y \<and> y < next_obj h')"
proof -
  obtain r1 memo h1 where d: "deepcopy limit [] h config = (r1, memo, h1)"
    by (cases "deepcopy limit [] h config") auto
  have p1: "preserves (next_obj h) h h1"
    using deepcopy_preserves(1)[OF d] by simp
  have n1: "next_obj h \<le> next_obj h1" using p1 by (simp add: preserves_def)
  have "preserves (next_obj h) h h' \<and> (\<forall>y. r = Inr (PRef y) \<longrightarrow> next_obj h \<le> y \<and> y < next_obj h')"
  proof (cases r1)
    case (Inl e)
    with assms d have "h' = h1" "r = Inl e" by (simp_all add: resolve_credentials_h_def)
    with p1 show ?thesis by simp
  next
    case (Inr c)
    show ?thesis
    proof (cases "\<exists>a items. c = PRef a \<and> objs h1 a = PDict items")
      case False
      with assms d Inr have "h' = h1" "\<exists>e. r = Inl e"
        by (auto simp: resolve_credentials_h_def split: pyval.splits pyobj.splits)
      with p1 show ?thesis by auto
    next
      case True
      then obtain a items where c: "c = PRef a" "objs h1 a = PDict items" by blast
      obtain ri h2 where m: "map_items_h limit credentials h1 items = (ri, h2)"
        by (cases "map_items_h limit credentials h1 items")
      have p2: "preserves (next_obj h) h1 h2"
        using map_value_h_preserves(2)[OF m n1] .
      show ?thesis
      proof (cases ri)
        case (Inl e)
        with assms d Inr c m have "h' = h2" "r = Inl e"
          by (simp_all add: resolve_credentials_h_def)
        with p1 p2 show ?thesis by (auto intro: preserves_trans)
      next
        case items': (Inr items')
        obtain y h3 where n: "new_obj (PDict items') h2 = (y, h3)"
          by (cases "new_obj (PDict items') h2")
        with assms d Inr c m items' have r: "h' = h3" "r = Inr (PRef y)"
          by (simp_all add: resolve_credentials_h_def)
        have n2: "next_obj h \<le> next_obj h2"
          using preserves_next[OF p2 n1] .
        have p3: "preserves (next_obj h) h2 h3" using n n2 by (rule preserves_new_obj)
        have "next_obj h \<le> y \<and> y < next_obj h3" using new_obj_next[OF n] n2 by simp
        with p1 p2 p3 r show ?thesis by (auto intro: preserves_trans)
      qed
    qed
  qed
  then show ?thesis by (simp add: preserves_def)
qed


lemma example_heap_run:
  "\<exists>h'. resolve_credentials_h 3 example_heap (PRef 0) 2 = (Inr (PRef 7), h')
     \<and> objs h' 7 = PDict [(''credentials'', PRef 3), (''nested'', PRef 6)]
     \<and> objs h' 6 = PDict [(''credentials'', PStr ''token'')]"
  by (simp add: resolve_credentials_h_def example_heap_def numeral_3_eq_3 new_obj_def set_item_def
      get_credentials_h_def CREDENTIALS_KEY_def)

theorem resolve_credentials_leaves_inputs_witness:
  "\<exists>h'. resolve_credentials_h 3 example_heap (PRef 0) 2 = (Inr (PRef 7), h')
     \<and> objs h' 7 = PDict [(''credentials'', PRef 3), (''nested'', PRef 6)]
     \<and> objs h' 0 = PDict [(''credentials'', PStr ''secretA''), (''nested'', PRef 1)]
     \<and> objs h' 1 = PDict [(''credentials'', PStr ''secretB'')]
     \<and> objs h' 2 = PDict [(''secretA'', PRef 3), (''secretB'', PStr ''token'')]
     \<and> objs h' 3 = PDict [(''user'', PStr ''me'')]"
proof -
  from example_heap_run obtain h' where
    r: "resolve_credentials_h 3 example_heap (PRef 0) 2 = (Inr (PRef 7), h')" and
    o: "objs h' 7 = PDict [(''credentials'', PRef 3), (''nested'', PRef 6)]"
    by blast
  have "\<forall>a<next_obj example_heap. objs h' a = objs example_heap a"
    using resolve_credentials_leaves_inputs[OF r] by blast
  then have "objs h' 0 = objs example_heap 0" "objs h' 1 = objs example_heap 1"
    "objs h' 2 = objs example_heap 2" "objs h' 3 = objs example_heap 3"
    by (simp_all add: example_heap_def)
  then have "objs h' 0 = PDict [(''credentials'', PStr ''secretA''), (''nested'', PRef 1)]
     \<and> objs h' 1 = PDict [(''credentials'', PStr ''secretB'')]
     \<and> objs h' 2 = PDict [(''secretA'', PRef 3), (''secretB'', PStr ''token'')]
     \<and> objs h' 3 = PDict [(''user'', PStr ''me'')]"
    by (simp add: example_heap_def)
  with r o show ?thesis by blast
qed

end
